theory Spec2Isabelle
  imports Main
begin

section \<open>JavaScript values\<close>

text \<open>
  The values the three request coordinators of \<^verbatim>\<open>src/website.js\<close> handle: what
  \<^verbatim>\<open>response.json()\<close> and \<^verbatim>\<open>JSON.parse\<close> return, and what the state hooks hold.
  Numbers are restricted to integers: the code looks at a number only through its
  truthiness. Strings are lists of code units below 256. An object is the association
  list of its own properties as the text that was parsed lists them, the last entry of a
  key being the one that counts.
\<close>

datatype jsval =
    JUndefined
  | JNull
  | JBool bool
  | JNum int
  | JStr string
  | JArr "jsval list"
  | JObj "(string \<times> jsval) list"

text \<open>\<^verbatim>\<open>!v\<close> is \<open>\<not> truthy v\<close>.\<close>

fun truthy :: "jsval \<Rightarrow> bool" where
  "truthy JUndefined = False"
| "truthy JNull = False"
| "truthy (JBool b) = b"
| "truthy (JNum n) = (n \<noteq> 0)"
| "truthy (JStr s) = (s \<noteq> [])"
| "truthy (JArr xs) = True"
| "truthy (JObj ps) = True"

fun nullish :: "jsval \<Rightarrow> bool" where
  "nullish JUndefined = True"
| "nullish JNull = True"
| "nullish v = False"

text \<open>
  \<^verbatim>\<open>v.k\<close> for a value \<open>v\<close> that is neither null nor undefined and a name \<open>k\<close> that no
  prototype defines (the code reads \<^verbatim>\<open>candidates\<close>, \<^verbatim>\<open>content\<close>, \<^verbatim>\<open>parts\<close> and
  \<^verbatim>\<open>text\<close>): only an object can have it.
\<close>

fun get_named :: "string \<Rightarrow> jsval \<Rightarrow> jsval" where
  "get_named k (JObj ps) = (case map_of (rev ps) k of None \<Rightarrow> JUndefined | Some v \<Rightarrow> v)"
| "get_named k v = JUndefined"

text \<open>\<^verbatim>\<open>v[0]\<close> for a value \<open>v\<close> that is neither null nor undefined.\<close>

fun get_index0 :: "jsval \<Rightarrow> jsval" where
  "get_index0 (JArr xs) = (case xs of [] \<Rightarrow> JUndefined | x # rest \<Rightarrow> x)"
| "get_index0 (JStr s) = (case s of [] \<Rightarrow> JUndefined | c # rest \<Rightarrow> JStr [c])"
| "get_index0 (JObj ps) = (case map_of (rev ps) ''0'' of None \<Rightarrow> JUndefined | Some v \<Rightarrow> v)"
| "get_index0 v = JUndefined"

text \<open>One link \<^verbatim>\<open>?.\<close> of an optional chain: no access below null or undefined.\<close>

definition optional :: "(jsval \<Rightarrow> jsval) \<Rightarrow> jsval \<Rightarrow> jsval" where
  "optional access v = (if nullish v then JUndefined else access v)"

section \<open>JSON.parse\<close>

text \<open>
  \<^verbatim>\<open>JSON.parse(text)\<close> first turns \<open>text\<close> into a string, as \<^verbatim>\<open>String(text)\<close> does
  (for integers below \<open>10\<^sup>2\<^sup>1\<close> in magnitude, which print in decimal).
\<close>

function decimal :: "nat \<Rightarrow> string" where
  "decimal n = (if n < 10 then [char_of (48 + n)] else decimal (n div 10) @ [char_of (48 + n mod 10)])"
  by pat_completeness auto
termination
  by (relation "measure id") auto

fun join :: "string list \<Rightarrow> string" where
  "join [] = []"
| "join [s] = s"
| "join (s # t) = s @ CHR '','' # join t"

fun to_string :: "jsval \<Rightarrow> string" where
  "to_string JUndefined = ''undefined''"
| "to_string JNull = ''null''"
| "to_string (JBool b) = (if b then ''true'' else ''false'')"
| "to_string (JNum n) = (if n < 0 then CHR ''-'' # decimal (nat (- n)) else decimal (nat n))"
| "to_string (JStr s) = s"
| "to_string (JArr xs) = join (map (\<lambda>x. if nullish x then [] else to_string x) xs)"
| "to_string (JObj ps) = ''[object Object]''"

text \<open>
  The parser, for the JSON texts whose values \<open>jsval\<close> has: an integer without fraction
  and exponent, a string with the one-letter escapes, \<^verbatim>\<open>true\<close>, \<^verbatim>\<open>false\<close>, \<^verbatim>\<open>null\<close>,
  arrays and objects. On a text with a fraction, an exponent or a \<^verbatim>\<open>\u\<close> escape it is
  \<open>None\<close> although \<^verbatim>\<open>JSON.parse\<close> returns a value; the theorems below that are about
  every reply take \<^verbatim>\<open>JSON.parse\<close> as a parameter, and this parser is applied to texts
  of the fragment only. The first argument of \<open>parse_value\<close> bounds the number of
  nested calls; two calls in a row read a character at least, so twice the length of
  the text is enough.
\<close>

definition is_json_whitespace :: "char \<Rightarrow> bool" where
  "is_json_whitespace c = (c = CHR '' '' \<or> c = CHR 0x09 \<or> c = CHR 0x0A \<or> c = CHR 0x0D)"

definition skip_ws :: "string \<Rightarrow> string" where
  "skip_ws s = dropWhile is_json_whitespace s"

definition is_digit :: "char \<Rightarrow> bool" where
  "is_digit c = (48 \<le> (of_char c :: nat) \<and> (of_char c :: nat) \<le> 57)"

definition unescape :: "char \<Rightarrow> char option" where
  "unescape e =
     (if e = CHR 0x22 \<or> e = CHR 0x5C \<or> e = CHR ''/'' then Some e
      else if e = CHR ''b'' then Some (CHR 0x08)
      else if e = CHR ''f'' then Some (CHR 0x0C)
      else if e = CHR ''n'' then Some (CHR 0x0A)
      else if e = CHR ''r'' then Some (CHR 0x0D)
      else if e = CHR ''t'' then Some (CHR 0x09)
      else None)"

fun parse_chars :: "string \<Rightarrow> (string \<times> string) option" where
  "parse_chars [] = None"
| "parse_chars (c # cs) =
     (if c = CHR 0x22 then Some ([], cs)
      else if c = CHR 0x5C then
        (case cs of
           [] \<Rightarrow> None
         | e # cs' \<Rightarrow>
             (case unescape e of
                None \<Rightarrow> None
              | Some x \<Rightarrow>
                  (case parse_chars cs' of
                     None \<Rightarrow> None
                   | Some (s, rest) \<Rightarrow> Some (x # s, rest))))
      else if (of_char c :: nat) < 32 then None
      else (case parse_chars cs of
              None \<Rightarrow> None
            | Some (s, rest) \<Rightarrow> Some (c # s, rest)))"

definition digits_value :: "string \<Rightarrow> nat" where
  "digits_value ds = foldl (\<lambda>n c. 10 * n + (of_char c - 48)) 0 ds"

definition parse_number :: "string \<Rightarrow> (jsval \<times> string) option" where
  "parse_number s =
     (let neg = (take 1 s = ''-'');
          s1 = (if neg then drop 1 s else s);
          ds = takeWhile is_digit s1;
          rest = dropWhile is_digit s1
      in if ds = [] \<or> (take 1 ds = ''0'' \<and> 1 < length ds) then None
         else if take 1 rest \<in> {''.'', ''e'', ''E''} then None
         else Some (JNum (if neg then - int (digits_value ds) else int (digits_value ds)), rest))"

definition parse_literal :: "string \<Rightarrow> jsval \<Rightarrow> string \<Rightarrow> (jsval \<times> string) option" where
  "parse_literal name v s =
     (if take (length name) s = name then Some (v, drop (length name) s) else None)"

fun parse_value :: "nat \<Rightarrow> string \<Rightarrow> (jsval \<times> string) option"
and parse_elements :: "nat \<Rightarrow> string \<Rightarrow> (jsval list \<times> string) option"
and parse_members :: "nat \<Rightarrow> string \<Rightarrow> ((string \<times> jsval) list \<times> string) option" where
  "parse_value 0 s = None"
| "parse_value (Suc n) s =
     (case skip_ws s of
        [] \<Rightarrow> None
      | c # cs \<Rightarrow>
          if c = CHR ''{'' then
            (case skip_ws cs of
               [] \<Rightarrow> None
             | d # ds \<Rightarrow>
                 if d = CHR ''}'' then Some (JObj [], ds)
                 else (case parse_members n cs of
                         None \<Rightarrow> None
                       | Some (ms, rest) \<Rightarrow> Some (JObj ms, rest)))
          else if c = CHR ''['' then
            (case skip_ws cs of
               [] \<Rightarrow> None
             | d # ds \<Rightarrow>
                 if d = CHR '']'' then Some (JArr [], ds)
                 else (case parse_elements n cs of
                         None \<Rightarrow> None
                       | Some (vs, rest) \<Rightarrow> Some (JArr vs, rest)))
          else if c = CHR 0x22 then
            (case parse_chars cs of
               None \<Rightarrow> None
             | Some (str, rest) \<Rightarrow> Some (JStr str, rest))
          else if c = CHR ''t'' then parse_literal ''true'' (JBool True) (c # cs)
          else if c = CHR ''f'' then parse_literal ''false'' (JBool False) (c # cs)
          else if c = CHR ''n'' then parse_literal ''null'' JNull (c # cs)
          else parse_number (c # cs))"
| "parse_elements 0 s = None"
| "parse_elements (Suc n) s =
     (case parse_value n s of
        None \<Rightarrow> None
      | Some (v, rest) \<Rightarrow>
          (case skip_ws rest of
             [] \<Rightarrow> None
           | c # cs \<Rightarrow>
               if c = CHR '']'' then Some ([v], cs)
               else if c = CHR '','' then
                 (case parse_elements n cs of
                    None \<Rightarrow> None
                  | Some (vs, rest') \<Rightarrow> Some (v # vs, rest'))
               else None))"
| "parse_members 0 s = None"
| "parse_members (Suc n) s =
     (case skip_ws s of
        [] \<Rightarrow> None
      | q # s1 \<Rightarrow>
          if q \<noteq> CHR 0x22 then None
          else (case parse_chars s1 of
                  None \<Rightarrow> None
                | Some (k, s2) \<Rightarrow>
                    (case skip_ws s2 of
                       [] \<Rightarrow> None
                     | c # s3 \<Rightarrow>
                         if c \<noteq> CHR '':'' then None
                         else (case parse_value n s3 of
                                 None \<Rightarrow> None
                               | Some (v, s4) \<Rightarrow>
                                   (case skip_ws s4 of
                                      [] \<Rightarrow> None
                                    | d # s5 \<Rightarrow>
                                        if d = CHR ''}'' then Some ([(k, v)], s5)
                                        else if d = CHR '','' then
                                          (case parse_members n s5 of
                                             None \<Rightarrow> None
                                           | Some (ms, rest) \<Rightarrow> Some ((k, v) # ms, rest))
                                        else None)))))"

text \<open>\<^verbatim>\<open>JSON.parse\<close>: \<open>None\<close> is its \<^verbatim>\<open>SyntaxError\<close>.\<close>

definition JSON_parse :: "jsval \<Rightarrow> jsval option" where
  "JSON_parse text =
     (let s = to_string text in
      case parse_value (2 * length s + 2) s of
        None \<Rightarrow> None
      | Some (v, rest) \<Rightarrow> if skip_ws rest = [] then Some v else None)"

section \<open>Exceptions, replies and the text of a reply\<close>

datatype exn =
    NetworkError
  | ApiError nat
  | BodySyntaxError
  | TypeError
  | InvalidStructure
  | ParseSyntaxError

text \<open>
  What one \<^verbatim>\<open>fetch\<close> comes back with: the promise rejects, or there is a response with
  a status and a body, \<open>None\<close> when \<^verbatim>\<open>response.json()\<close> rejects.
\<close>

datatype reply = Rejected | Response nat "jsval option"

definition response_ok :: "nat \<Rightarrow> bool" where
  "response_ok status = (200 \<le> status \<and> status \<le> 299)"

text \<open>
  \<^verbatim>\<open>result.candidates?.[0]?.content?.parts?.[0]?.text\<close>: the first access is not
  optional and throws on null.
\<close>

definition text_path :: "jsval \<Rightarrow> exn + jsval" where
  "text_path result =
     (if nullish result then Inl TypeError
      else Inr (optional (get_named ''text'')
                 (optional get_index0
                   (optional (get_named ''parts'')
                     (optional (get_named ''content'')
                       (optional get_index0
                         (get_named ''candidates'' result)))))))"

section \<open>The state hooks\<close>

record app_state =
  inputText :: string
  results :: jsval
  loading :: bool
  error :: jsval
  summary :: jsval
  isSummarizing :: bool
  misinformationFact :: jsval
  isGettingFact :: bool

text \<open>The state of \<^verbatim>\<open>useState\<close>'s initial values.\<close>

definition initial_state :: app_state where
  "initial_state =
     \<lparr>inputText = [], results = JNull, loading = False, error = JNull, summary = JNull,
      isSummarizing = False, misinformationFact = JNull, isGettingFact = False\<rparr>"

text \<open>
  \<^verbatim>\<open>String.prototype.trim\<close> on code units below 256: tab, line feed, vertical tab, form
  feed, carriage return, space and no-break space are removed at both ends.
\<close>

definition is_js_whitespace :: "char \<Rightarrow> bool" where
  "is_js_whitespace c = (of_char c \<in> {9, 10, 11, 12, 13, 32, 160 :: nat})"

definition trim :: "string \<Rightarrow> string" where
  "trim s = rev (dropWhile is_js_whitespace (rev (dropWhile is_js_whitespace s)))"

section \<open>Runs\<close>

text \<open>
  A run of a coordinator is the list of the points at which it stops, each with the
  state the hooks hold there: a request is out (\<open>Reply_pending\<close>), a timer set by
  \<^verbatim>\<open>setTimeout(makeApiCall, delay)\<close> is running (\<open>Timer_pending delay\<close>), or nothing of
  this run is left to happen (\<open>Settled\<close>). The body of the request, the call of
  \<^verbatim>\<open>console.error\<close> and the timer that scrolls to the results change no hook and are
  left out.
\<close>

datatype wait = Reply_pending | Timer_pending nat | Settled

type_synonym run = "(wait \<times> app_state) list"

definition fetches :: "run \<Rightarrow> nat" where
  "fetches t = length (filter (\<lambda>p. fst p = Reply_pending) t)"

fun delays :: "run \<Rightarrow> nat list" where
  "delays [] = []"
| "delays ((Timer_pending d, st) # t) = d # delays t"
| "delays (p # t) = delays t"

definition final :: "run \<Rightarrow> app_state" where
  "final t = snd (last t)"

definition maxRetries :: nat where
  "maxRetries = 3"

definition baseDelay :: nat where
  "baseDelay = 1000"

text \<open>\<^verbatim>\<open>baseDelay * (2 ** retryCount)\<close>, computed after \<^verbatim>\<open>retryCount++\<close>.\<close>

definition delay :: "nat \<Rightarrow> nat" where
  "delay retryCount = baseDelay * 2 ^ retryCount"

section \<open>analyzeContent\<close>

text \<open>
  The \<^verbatim>\<open>try\<close> block of the analysis. \<open>parse\<close> is the built-in \<^verbatim>\<open>JSON.parse\<close>,
  \<open>None\<close> where it throws.
\<close>

definition analyze_try :: "(jsval \<Rightarrow> jsval option) \<Rightarrow> reply \<Rightarrow> app_state \<Rightarrow> exn + app_state" where
  "analyze_try parse r st =
     (case r of
        Rejected \<Rightarrow> Inl NetworkError
      | Response status body \<Rightarrow>
          if \<not> response_ok status then Inl (ApiError status)
          else (case body of
                  None \<Rightarrow> Inl BodySyntaxError
                | Some result \<Rightarrow>
                    (case text_path result of
                       Inl e \<Rightarrow> Inl e
                     | Inr jsonText \<Rightarrow>
                         if \<not> truthy jsonText then Inl InvalidStructure
                         else (case parse jsonText of
                                 None \<Rightarrow> Inl ParseSyntaxError
                               | Some parsedResult \<Rightarrow> Inr (st\<lparr>results := parsedResult\<rparr>)))))"

text \<open>One call of \<^verbatim>\<open>makeApiCall\<close> from the reply on: \<^verbatim>\<open>try\<close>, \<^verbatim>\<open>catch\<close>, \<^verbatim>\<open>finally\<close>.\<close>

definition analyze_settle ::
  "(jsval \<Rightarrow> jsval option) \<Rightarrow> reply \<Rightarrow> nat \<Rightarrow> app_state \<Rightarrow> wait \<times> app_state" where
  "analyze_settle parse r retryCount st =
     (case analyze_try parse r st of
        Inr st' \<Rightarrow> (Settled, st'\<lparr>loading := False\<rparr>)
      | Inl e \<Rightarrow>
          if retryCount < maxRetries
          then (Timer_pending (delay (retryCount + 1)), st\<lparr>loading := False\<rparr>)
          else (Settled,
                st\<lparr>error := JStr ''Failed to get a response. Please try again.'',
                   loading := False\<rparr>))"

text \<open>
  \<^verbatim>\<open>makeApiCall\<close> and the calls of it its timers make. \<open>env k\<close> is the reply to the
  request sent while \<^verbatim>\<open>retryCount\<close> is \<open>k\<close>.
\<close>

function analyze_makeApiCall ::
  "(jsval \<Rightarrow> jsval option) \<Rightarrow> (nat \<Rightarrow> reply) \<Rightarrow> nat \<Rightarrow> app_state \<Rightarrow> run" where
  "analyze_makeApiCall parse env retryCount st =
     (Reply_pending, st) #
     (case analyze_settle parse (env retryCount) retryCount st of
        (Timer_pending d, st') \<Rightarrow>
          (Timer_pending d, st') # analyze_makeApiCall parse env (retryCount + 1) st'
      | (w, st') \<Rightarrow> [(w, st')])"
  by pat_completeness auto
termination
  by (relation "measure (\<lambda>(P, env, retryCount, st). maxRetries + 1 - retryCount)")
     (auto simp: analyze_settle_def split: sum.splits if_splits)

definition analyzeContent ::
  "(jsval \<Rightarrow> jsval option) \<Rightarrow> (nat \<Rightarrow> reply) \<Rightarrow> app_state \<Rightarrow> run" where
  "analyzeContent parse env st =
     (if trim (inputText st) = []
      then [(Settled, st\<lparr>error := JStr ''Please enter some text to analyze.''\<rparr>)]
      else analyze_makeApiCall parse env 0
             (st\<lparr>loading := True, results := JNull, error := JNull\<rparr>))"

section \<open>summarizeContent\<close>

definition summarize_try :: "reply \<Rightarrow> app_state \<Rightarrow> exn + app_state" where
  "summarize_try r st =
     (case r of
        Rejected \<Rightarrow> Inl NetworkError
      | Response status body \<Rightarrow>
          if \<not> response_ok status then Inl (ApiError status)
          else (case body of
                  None \<Rightarrow> Inl BodySyntaxError
                | Some result \<Rightarrow>
                    (case text_path result of
                       Inl e \<Rightarrow> Inl e
                     | Inr summaryText \<Rightarrow> Inr (st\<lparr>summary := summaryText\<rparr>))))"

definition summarize_settle :: "reply \<Rightarrow> nat \<Rightarrow> app_state \<Rightarrow> wait \<times> app_state" where
  "summarize_settle r retryCount st =
     (case summarize_try r st of
        Inr st' \<Rightarrow> (Settled, st'\<lparr>isSummarizing := False\<rparr>)
      | Inl e \<Rightarrow>
          if retryCount < maxRetries
          then (Timer_pending (delay (retryCount + 1)), st\<lparr>isSummarizing := False\<rparr>)
          else (Settled,
                st\<lparr>error := JStr ''Failed to get a summary. Please try again.'',
                   isSummarizing := False\<rparr>))"

function summarize_makeApiCall :: "(nat \<Rightarrow> reply) \<Rightarrow> nat \<Rightarrow> app_state \<Rightarrow> run" where
  "summarize_makeApiCall env retryCount st =
     (Reply_pending, st) #
     (case summarize_settle (env retryCount) retryCount st of
        (Timer_pending d, st') \<Rightarrow>
          (Timer_pending d, st') # summarize_makeApiCall env (retryCount + 1) st'
      | (w, st') \<Rightarrow> [(w, st')])"
  by pat_completeness auto
termination
  by (relation "measure (\<lambda>(env, retryCount, st). maxRetries + 1 - retryCount)")
     (auto simp: summarize_settle_def split: sum.splits if_splits)

definition summarizeContent :: "(nat \<Rightarrow> reply) \<Rightarrow> app_state \<Rightarrow> run" where
  "summarizeContent env st =
     (if trim (inputText st) = []
      then [(Settled, st\<lparr>error := JStr ''Please enter some text to summarize.''\<rparr>)]
      else summarize_makeApiCall env 0 (st\<lparr>isSummarizing := True, summary := JNull\<rparr>))"

section \<open>getMisinformationFact\<close>

definition fact_try :: "reply \<Rightarrow> app_state \<Rightarrow> exn + app_state" where
  "fact_try r st =
     (case r of
        Rejected \<Rightarrow> Inl NetworkError
      | Response status body \<Rightarrow>
          if \<not> response_ok status then Inl (ApiError status)
          else (case body of
                  None \<Rightarrow> Inl BodySyntaxError
                | Some result \<Rightarrow>
                    (case text_path result of
                       Inl e \<Rightarrow> Inl e
                     | Inr factText \<Rightarrow> Inr (st\<lparr>misinformationFact := factText\<rparr>))))"

definition fact_settle :: "reply \<Rightarrow> nat \<Rightarrow> app_state \<Rightarrow> wait \<times> app_state" where
  "fact_settle r retryCount st =
     (case fact_try r st of
        Inr st' \<Rightarrow> (Settled, st'\<lparr>isGettingFact := False\<rparr>)
      | Inl e \<Rightarrow>
          if retryCount < maxRetries
          then (Timer_pending (delay (retryCount + 1)), st\<lparr>isGettingFact := False\<rparr>)
          else (Settled,
                st\<lparr>error := JStr ''Failed to get a fact. Please try again.'',
                   isGettingFact := False\<rparr>))"

function fact_makeApiCall :: "(nat \<Rightarrow> reply) \<Rightarrow> nat \<Rightarrow> app_state \<Rightarrow> run" where
  "fact_makeApiCall env retryCount st =
     (Reply_pending, st) #
     (case fact_settle (env retryCount) retryCount st of
        (Timer_pending d, st') \<Rightarrow>
          (Timer_pending d, st') # fact_makeApiCall env (retryCount + 1) st'
      | (w, st') \<Rightarrow> [(w, st')])"
  by pat_completeness auto
termination
  by (relation "measure (\<lambda>(env, retryCount, st). maxRetries + 1 - retryCount)")
     (auto simp: fact_settle_def split: sum.splits if_splits)

definition getMisinformationFact :: "(nat \<Rightarrow> reply) \<Rightarrow> app_state \<Rightarrow> run" where
  "getMisinformationFact env st =
     fact_makeApiCall env 0
       (st\<lparr>isGettingFact := True, misinformationFact := JNull, error := JNull\<rparr>)"

section \<open>Vocabulary of the properties\<close>

text \<open>A failure of the client layer: the fetch rejects, or the status is not 2xx.\<close>

definition client_failure :: "reply \<Rightarrow> bool" where
  "client_failure r =
     (case r of Rejected \<Rightarrow> True | Response status body \<Rightarrow> \<not> response_ok status)"

text \<open>
  A failure to interpret a body that was received: the text is not reached, it is
  absent or empty, or \<^verbatim>\<open>JSON.parse\<close> throws on it.
\<close>

definition interpretation_fails :: "(jsval \<Rightarrow> jsval option) \<Rightarrow> jsval \<Rightarrow> bool" where
  "interpretation_fails parse result =
     (case text_path result of
        Inl e \<Rightarrow> True
      | Inr jsonText \<Rightarrow> \<not> truthy jsonText \<or> parse jsonText = None)"

text \<open>A reply that is received with a 2xx status and a body that cannot be interpreted.\<close>

definition uninterpretable :: "(jsval \<Rightarrow> jsval option) \<Rightarrow> reply \<Rightarrow> bool" where
  "uninterpretable parse r =
     (case r of
        Rejected \<Rightarrow> False
      | Response status body \<Rightarrow>
          response_ok status \<and>
          (case body of None \<Rightarrow> False | Some result \<Rightarrow> interpretation_fails parse result))"

text \<open>A body of the shape the endpoint documents, around a given text.\<close>

definition wire_body :: "jsval \<Rightarrow> jsval" where
  "wire_body t =
     JObj [(''candidates'',
            JArr [JObj [(''content'', JObj [(''parts'', JArr [JObj [(''text'', t)]])])]])]"

text \<open>
  \<open>outside_analyze st st'\<close>: \<open>st'\<close> differs from \<open>st\<close> at most in the hooks the analysis
  writes (\<open>results\<close>, \<open>loading\<close> and the one \<open>error\<close> hook of the page); likewise for the
  summary and the fact.
\<close>

definition outside_analyze :: "app_state \<Rightarrow> app_state \<Rightarrow> bool" where
  "outside_analyze st st' =
     (inputText st' = inputText st \<and>
      summary st' = summary st \<and> isSummarizing st' = isSummarizing st \<and>
      misinformationFact st' = misinformationFact st \<and> isGettingFact st' = isGettingFact st)"

definition outside_summarize :: "app_state \<Rightarrow> app_state \<Rightarrow> bool" where
  "outside_summarize st st' =
     (inputText st' = inputText st \<and>
      results st' = results st \<and> loading st' = loading st \<and>
      misinformationFact st' = misinformationFact st \<and> isGettingFact st' = isGettingFact st)"

definition outside_fact :: "app_state \<Rightarrow> app_state \<Rightarrow> bool" where
  "outside_fact st st' =
     (inputText st' = inputText st \<and>
      results st' = results st \<and> loading st' = loading st \<and>
      summary st' = summary st \<and> isSummarizing st' = isSummarizing st)"

text \<open>
  The order of requests and timers of a chain that starts with the given retry count and
  has the given number of failed attempts followed by a wait: each of them is a request,
  then the timer of the next retry count; the last request has no timer after it.
  \<open>leading_failures throws k\<close> is that number when \<open>throws j\<close> says whether the attempt
  at retry count \<open>j\<close> throws: the attempts that throw in a row from \<open>k\<close> on, while the
  retry count is below \<open>maxRetries\<close>.
\<close>

fun waits_from :: "nat \<Rightarrow> nat \<Rightarrow> wait list" where
  "waits_from retryCount 0 = [Reply_pending, Settled]"
| "waits_from retryCount (Suc n) =
     Reply_pending # Timer_pending (delay (retryCount + 1)) # waits_from (retryCount + 1) n"

definition leading_failures :: "(nat \<Rightarrow> bool) \<Rightarrow> nat \<Rightarrow> nat" where
  "leading_failures throws retryCount = length (takeWhile throws [retryCount..<maxRetries])"

section \<open>Unfolding a run\<close>

declare analyze_makeApiCall.simps [simp del]
declare summarize_makeApiCall.simps [simp del]
declare fact_makeApiCall.simps [simp del]

lemma trim_empty_iff: "trim s = [] \<longleftrightarrow> (\<forall>c\<in>set s. is_js_whitespace c)"
proof
  let ?d = "dropWhile is_js_whitespace s"
  assume "trim s = []"
  then have a: "\<forall>c\<in>set ?d. is_js_whitespace c"
    by (simp add: trim_def dropWhile_eq_Nil_conv)
  have "?d = []"
  proof (rule ccontr)
    assume ne: "?d \<noteq> []"
    then have "\<not> is_js_whitespace (hd ?d)"
      by (rule hd_dropWhile)
    moreover have "hd ?d \<in> set ?d"
      using ne by simp
    ultimately show False
      using a by blast
  qed
  then show "\<forall>c\<in>set s. is_js_whitespace c"
    by (simp add: dropWhile_eq_Nil_conv)
next
  assume "\<forall>c\<in>set s. is_js_whitespace c"
  then show "trim s = []"
    by (auto simp: trim_def dest: set_dropWhileD)
qed

lemma text_path_wire_body: "text_path (wire_body t) = Inr t"
  by (simp add: text_path_def wire_body_def optional_def)

subsection \<open>analyze\<close>

lemma analyze_try_client_failure:
  "client_failure r \<Longrightarrow> \<exists>e. analyze_try parse r st = Inl e"
  by (auto simp: client_failure_def analyze_try_def split: reply.splits)

lemma analyze_try_Inl_any_state:
  "analyze_try parse r st = Inl e \<Longrightarrow> analyze_try parse r st' = Inl e"
  by (auto simp: analyze_try_def split: reply.splits option.splits sum.splits if_splits)

lemma analyze_try_outside:
  "analyze_try parse r st = Inr st' \<Longrightarrow> outside_analyze s0 st \<Longrightarrow> outside_analyze s0 st'"
  by (auto simp: analyze_try_def outside_analyze_def
      split: reply.splits option.splits sum.splits if_splits)

lemma analyze_makeApiCall_retry:
  assumes "analyze_try parse (env rc) st = Inl e" and "rc < maxRetries" and "rc' = rc + 1"
  shows "analyze_makeApiCall parse env rc st =
           (Reply_pending, st) # (Timer_pending (delay rc'), st\<lparr>loading := False\<rparr>) #
           analyze_makeApiCall parse env rc' (st\<lparr>loading := False\<rparr>)"
  using assms by (subst analyze_makeApiCall.simps) (simp add: analyze_settle_def)

lemma analyze_makeApiCall_give_up:
  assumes "analyze_try parse (env rc) st = Inl e" and "\<not> rc < maxRetries"
  shows "analyze_makeApiCall parse env rc st =
           [(Reply_pending, st),
            (Settled, st\<lparr>error := JStr ''Failed to get a response. Please try again.'', loading := False\<rparr>)]"
  using assms by (subst analyze_makeApiCall.simps) (simp add: analyze_settle_def)

lemma analyze_makeApiCall_success:
  assumes "analyze_try parse (env rc) st = Inr st'"
  shows "analyze_makeApiCall parse env rc st = [(Reply_pending, st), (Settled, st'\<lparr>loading := False\<rparr>)]"
  using assms by (subst analyze_makeApiCall.simps) (simp add: analyze_settle_def)

text \<open>The run in which each of the four attempts throws.\<close>

lemma analyze_all_fail:
  assumes f: "\<And>k. k \<le> 3 \<Longrightarrow> \<exists>e. analyze_try parse (env k) st = Inl e"
  shows "analyze_makeApiCall parse env 0 st =
     [(Reply_pending, st),
      (Timer_pending 2000, st\<lparr>loading := False\<rparr>),
      (Reply_pending, st\<lparr>loading := False\<rparr>),
      (Timer_pending 4000, st\<lparr>loading := False\<rparr>),
      (Reply_pending, st\<lparr>loading := False\<rparr>),
      (Timer_pending 8000, st\<lparr>loading := False\<rparr>),
      (Reply_pending, st\<lparr>loading := False\<rparr>),
      (Settled, st\<lparr>error := JStr ''Failed to get a response. Please try again.'', loading := False\<rparr>)]"
proof -
  let ?s = "st\<lparr>loading := False\<rparr>"
  have g: "\<exists>e. analyze_try parse (env k) ?s = Inl e" if "k \<le> 3" for k
    using f [OF that] analyze_try_Inl_any_state by blast
  obtain e0 where e0: "analyze_try parse (env 0) st = Inl e0" using f [of 0] by auto
  obtain e1 where e1: "analyze_try parse (env 1) ?s = Inl e1" using g [of 1] by auto
  obtain e2 where e2: "analyze_try parse (env 2) ?s = Inl e2" using g [of 2] by auto
  obtain e3 where e3: "analyze_try parse (env 3) ?s = Inl e3" using g [of 3] by auto
  have s0: "analyze_makeApiCall parse env 0 st =
      (Reply_pending, st) # (Timer_pending 2000, ?s) # analyze_makeApiCall parse env 1 ?s"
    by (subst analyze_makeApiCall_retry [of parse env 0 st e0 1])
       (simp_all add: e0 maxRetries_def delay_def baseDelay_def)
  have s1: "analyze_makeApiCall parse env 1 ?s =
      (Reply_pending, ?s) # (Timer_pending 4000, ?s) # analyze_makeApiCall parse env 2 ?s"
    by (subst analyze_makeApiCall_retry [of parse env 1 ?s e1 2])
       (simp_all add: e1 [unfolded One_nat_def] maxRetries_def delay_def baseDelay_def)
  have s2: "analyze_makeApiCall parse env 2 ?s =
      (Reply_pending, ?s) # (Timer_pending 8000, ?s) # analyze_makeApiCall parse env 3 ?s"
    by (subst analyze_makeApiCall_retry [of parse env 2 ?s e2 3])
       (simp_all add: e2 maxRetries_def delay_def baseDelay_def)
  have s3: "analyze_makeApiCall parse env 3 ?s =
      [(Reply_pending, ?s), (Settled, ?s\<lparr>error := JStr ''Failed to get a response. Please try again.'', loading := False\<rparr>)]"
    by (subst analyze_makeApiCall_give_up [of parse env 3 ?s e3]) (simp_all add: e3 maxRetries_def)
  show ?thesis
    unfolding s0 s1 s2 s3 by simp
qed

text \<open>No point of a run touches a hook of the other two coordinators.\<close>

lemma analyze_makeApiCall_outside:
  "outside_analyze s0 st \<Longrightarrow>
   \<forall>p\<in>set (analyze_makeApiCall parse env rc st). outside_analyze s0 (snd p)"
proof (induction n \<equiv> "maxRetries - rc" arbitrary: rc st)
  case 0
  show ?case
  proof (cases "analyze_try parse (env rc) st")
    case (Inl e)
    with 0 show ?thesis
      by (simp add: analyze_makeApiCall_give_up [of parse env rc st e] outside_analyze_def)
  next
    case (Inr st')
    with 0 analyze_try_outside [OF Inr] show ?thesis
      by (simp add: analyze_makeApiCall_success [of parse env rc st st'] outside_analyze_def)
  qed
next
  case (Suc m)
  show ?case
  proof (cases "analyze_try parse (env rc) st")
    case (Inl e)
    have lt: "rc < maxRetries" using Suc.hyps(2) by simp
    have o: "outside_analyze s0 (st\<lparr>loading := False\<rparr>)"
      using Suc.prems by (simp add: outside_analyze_def)
    have m: "m = maxRetries - (rc + 1)" using Suc.hyps(2) by simp
    show ?thesis
      using Suc.hyps(1) [OF m o] Suc.prems o
      by (simp add: analyze_makeApiCall_retry [of parse env rc st e "rc + 1"] Inl lt)
  next
    case (Inr st')
    with Suc.prems analyze_try_outside [OF Inr] show ?thesis
      by (simp add: analyze_makeApiCall_success [of parse env rc st st'] outside_analyze_def)
  qed
qed

text \<open>
  The timers of a run, in order, are \<open>delay (rc + 1)\<close>, \<open>delay (rc + 2)\<close>, ..., each
  followed by one more request.
\<close>

lemma analyze_makeApiCall_delays:
  "rc \<le> maxRetries \<Longrightarrow>
   \<exists>n. rc + n \<le> maxRetries \<and>
       delays (analyze_makeApiCall parse env rc st) = map delay [rc + 1..<rc + 1 + n] \<and>
       fetches (analyze_makeApiCall parse env rc st) = Suc n"
proof (induction m \<equiv> "maxRetries - rc" arbitrary: rc st)
  case 0
  then have ge: "\<not> rc < maxRetries" by simp
  show ?case
  proof (cases "analyze_try parse (env rc) st")
    case (Inl e)
    have run: "analyze_makeApiCall parse env rc st =
        [(Reply_pending, st), (Settled, st\<lparr>error := JStr ''Failed to get a response. Please try again.'', loading := False\<rparr>)]"
      by (simp add: analyze_makeApiCall_give_up [of parse env rc st e] Inl ge)
    show ?thesis
      unfolding run using "0.prems" by (intro exI [of _ 0]) (simp add: fetches_def)
  next
    case (Inr st')
    have run: "analyze_makeApiCall parse env rc st =
        [(Reply_pending, st), (Settled, st'\<lparr>loading := False\<rparr>)]"
      by (simp add: analyze_makeApiCall_success [of parse env rc st st'] Inr)
    show ?thesis
      unfolding run using "0.prems" by (intro exI [of _ 0]) (simp add: fetches_def)
  qed
next
  case (Suc m)
  have lt: "rc < maxRetries" using Suc.hyps(2) by simp
  show ?case
  proof (cases "analyze_try parse (env rc) st")
    case (Inl e)
    have m: "m = maxRetries - (rc + 1)" using Suc.hyps(2) by simp
    have le: "rc + 1 \<le> maxRetries" using lt by simp
    obtain n where n: "rc + 1 + n \<le> maxRetries"
      "delays (analyze_makeApiCall parse env (rc + 1) (st\<lparr>loading := False\<rparr>)) =
         map delay [rc + 1 + 1..<rc + 1 + 1 + n]"
      "fetches (analyze_makeApiCall parse env (rc + 1) (st\<lparr>loading := False\<rparr>)) = Suc n"
      using Suc.hyps(1) [OF m le, of "st\<lparr>loading := False\<rparr>"] by blast
    have run: "analyze_makeApiCall parse env rc st =
        (Reply_pending, st) # (Timer_pending (delay (rc + 1)), st\<lparr>loading := False\<rparr>) #
        analyze_makeApiCall parse env (rc + 1) (st\<lparr>loading := False\<rparr>)"
      by (simp add: analyze_makeApiCall_retry [of parse env rc st e "rc + 1"] Inl lt)
    have f: "fetches (analyze_makeApiCall parse env rc st) = Suc (Suc n)"
      unfolding run using n(3) by (simp add: fetches_def)
    have upt: "[rc + 1..<rc + 1 + Suc n] = (rc + 1) # [rc + 1 + 1..<rc + 1 + 1 + n]"
      by (simp add: upt_conv_Cons)
    have d: "delays (analyze_makeApiCall parse env rc st) = map delay [rc + 1..<rc + 1 + Suc n]"
      unfolding run upt by (simp only: delays.simps list.map n(2))
    show ?thesis
      using n(1) f d by (intro exI [of _ "Suc n"]) simp
  next
    case (Inr st')
    have run: "analyze_makeApiCall parse env rc st =
        [(Reply_pending, st), (Settled, st'\<lparr>loading := False\<rparr>)]"
      by (simp add: analyze_makeApiCall_success [of parse env rc st st'] Inr)
    show ?thesis
      unfolding run using Suc.prems by (intro exI [of _ 0]) (simp add: fetches_def)
  qed
qed

subsection \<open>summarize\<close>

lemma summarize_try_client_failure:
  "client_failure r \<Longrightarrow> \<exists>e. summarize_try r st = Inl e"
  by (auto simp: client_failure_def summarize_try_def split: reply.splits)

lemma summarize_try_Inl_any_state:
  "summarize_try r st = Inl e \<Longrightarrow> summarize_try r st' = Inl e"
  by (auto simp: summarize_try_def split: reply.splits option.splits sum.splits if_splits)

lemma summarize_try_outside:
  "summarize_try r st = Inr st' \<Longrightarrow> outside_summarize s0 st \<Longrightarrow> outside_summarize s0 st'"
  by (auto simp: summarize_try_def outside_summarize_def
      split: reply.splits option.splits sum.splits if_splits)

lemma summarize_makeApiCall_retry:
  assumes "summarize_try (env rc) st = Inl e" and "rc < maxRetries" and "rc' = rc + 1"
  shows "summarize_makeApiCall env rc st =
           (Reply_pending, st) # (Timer_pending (delay rc'), st\<lparr>isSummarizing := False\<rparr>) #
           summarize_makeApiCall env rc' (st\<lparr>isSummarizing := False\<rparr>)"
  using assms by (subst summarize_makeApiCall.simps) (simp add: summarize_settle_def)

lemma summarize_makeApiCall_give_up:
  assumes "summarize_try (env rc) st = Inl e" and "\<not> rc < maxRetries"
  shows "summarize_makeApiCall env rc st =
           [(Reply_pending, st),
            (Settled, st\<lparr>error := JStr ''Failed to get a summary. Please try again.'', isSummarizing := False\<rparr>)]"
  using assms by (subst summarize_makeApiCall.simps) (simp add: summarize_settle_def)

lemma summarize_makeApiCall_success:
  assumes "summarize_try (env rc) st = Inr st'"
  shows "summarize_makeApiCall env rc st = [(Reply_pending, st), (Settled, st'\<lparr>isSummarizing := False\<rparr>)]"
  using assms by (subst summarize_makeApiCall.simps) (simp add: summarize_settle_def)

text \<open>The run in which each of the four attempts throws.\<close>

lemma summarize_all_fail:
  assumes f: "\<And>k. k \<le> 3 \<Longrightarrow> \<exists>e. summarize_try (env k) st = Inl e"
  shows "summarize_makeApiCall env 0 st =
     [(Reply_pending, st),
      (Timer_pending 2000, st\<lparr>isSummarizing := False\<rparr>),
      (Reply_pending, st\<lparr>isSummarizing := False\<rparr>),
      (Timer_pending 4000, st\<lparr>isSummarizing := False\<rparr>),
      (Reply_pending, st\<lparr>isSummarizing := False\<rparr>),
      (Timer_pending 8000, st\<lparr>isSummarizing := False\<rparr>),
      (Reply_pending, st\<lparr>isSummarizing := False\<rparr>),
      (Settled, st\<lparr>error := JStr ''Failed to get a summary. Please try again.'', isSummarizing := False\<rparr>)]"
proof -
  let ?s = "st\<lparr>isSummarizing := False\<rparr>"
  have g: "\<exists>e. summarize_try (env k) ?s = Inl e" if "k \<le> 3" for k
    using f [OF that] summarize_try_Inl_any_state by blast
  obtain e0 where e0: "summarize_try (env 0) st = Inl e0" using f [of 0] by auto
  obtain e1 where e1: "summarize_try (env 1) ?s = Inl e1" using g [of 1] by auto
  obtain e2 where e2: "summarize_try (env 2) ?s = Inl e2" using g [of 2] by auto
  obtain e3 where e3: "summarize_try (env 3) ?s = Inl e3" using g [of 3] by auto
  have s0: "summarize_makeApiCall env 0 st =
      (Reply_pending, st) # (Timer_pending 2000, ?s) # summarize_makeApiCall env 1 ?s"
    by (subst summarize_makeApiCall_retry [of env 0 st e0 1])
       (simp_all add: e0 maxRetries_def delay_def baseDelay_def)
  have s1: "summarize_makeApiCall env 1 ?s =
      (Reply_pending, ?s) # (Timer_pending 4000, ?s) # summarize_makeApiCall env 2 ?s"
    by (subst summarize_makeApiCall_retry [of env 1 ?s e1 2])
       (simp_all add: e1 [unfolded One_nat_def] maxRetries_def delay_def baseDelay_def)
  have s2: "summarize_makeApiCall env 2 ?s =
      (Reply_pending, ?s) # (Timer_pending 8000, ?s) # summarize_makeApiCall env 3 ?s"
    by (subst summarize_makeApiCall_retry [of env 2 ?s e2 3])
       (simp_all add: e2 maxRetries_def delay_def baseDelay_def)
  have s3: "summarize_makeApiCall env 3 ?s =
      [(Reply_pending, ?s), (Settled, ?s\<lparr>error := JStr ''Failed to get a summary. Please try again.'', isSummarizing := False\<rparr>)]"
    by (subst summarize_makeApiCall_give_up [of env 3 ?s e3]) (simp_all add: e3 maxRetries_def)
  show ?thesis
    unfolding s0 s1 s2 s3 by simp
qed

text \<open>No point of a run touches a hook of the other two coordinators.\<close>

lemma summarize_makeApiCall_outside:
  "outside_summarize s0 st \<Longrightarrow>
   \<forall>p\<in>set (summarize_makeApiCall env rc st). outside_summarize s0 (snd p)"
proof (induction n \<equiv> "maxRetries - rc" arbitrary: rc st)
  case 0
  show ?case
  proof (cases "summarize_try (env rc) st")
    case (Inl e)
    with 0 show ?thesis
      by (simp add: summarize_makeApiCall_give_up [of env rc st e] outside_summarize_def)
  next
    case (Inr st')
    with 0 summarize_try_outside [OF Inr] show ?thesis
      by (simp add: summarize_makeApiCall_success [of env rc st st'] outside_summarize_def)
  qed
next
  case (Suc m)
  show ?case
  proof (cases "summarize_try (env rc) st")
    case (Inl e)
    have lt: "rc < maxRetries" using Suc.hyps(2) by simp
    have o: "outside_summarize s0 (st\<lparr>isSummarizing := False\<rparr>)"
      using Suc.prems by (simp add: outside_summarize_def)
    have m: "m = maxRetries - (rc + 1)" using Suc.hyps(2) by simp
    show ?thesis
      using Suc.hyps(1) [OF m o] Suc.prems o
      by (simp add: summarize_makeApiCall_retry [of env rc st e "rc + 1"] Inl lt)
  next
    case (Inr st')
    with Suc.prems summarize_try_outside [OF Inr] show ?thesis
      by (simp add: summarize_makeApiCall_success [of env rc st st'] outside_summarize_def)
  qed
qed

text \<open>
  The timers of a run, in order, are \<open>delay (rc + 1)\<close>, \<open>delay (rc + 2)\<close>, ..., each
  followed by one more request.
\<close>

lemma summarize_makeApiCall_delays:
  "rc \<le> maxRetries \<Longrightarrow>
   \<exists>n. rc + n \<le> maxRetries \<and>
       delays (summarize_makeApiCall env rc st) = map delay [rc + 1..<rc + 1 + n] \<and>
       fetches (summarize_makeApiCall env rc st) = Suc n"
proof (induction m \<equiv> "maxRetries - rc" arbitrary: rc st)
  case 0
  then have ge: "\<not> rc < maxRetries" by simp
  show ?case
  proof (cases "summarize_try (env rc) st")
    case (Inl e)
    have run: "summarize_makeApiCall env rc st =
        [(Reply_pending, st), (Settled, st\<lparr>error := JStr ''Failed to get a summary. Please try again.'', isSummarizing := False\<rparr>)]"
      by (simp add: summarize_makeApiCall_give_up [of env rc st e] Inl ge)
    show ?thesis
      unfolding run using "0.prems" by (intro exI [of _ 0]) (simp add: fetches_def)
  next
    case (Inr st')
    have run: "summarize_makeApiCall env rc st =
        [(Reply_pending, st), (Settled, st'\<lparr>isSummarizing := False\<rparr>)]"
      by (simp add: summarize_makeApiCall_success [of env rc st st'] Inr)
    show ?thesis
      unfolding run using "0.prems" by (intro exI [of _ 0]) (simp add: fetches_def)
  qed
next
  case (Suc m)
  have lt: "rc < maxRetries" using Suc.hyps(2) by simp
  show ?case
  proof (cases "summarize_try (env rc) st")
    case (Inl e)
    have m: "m = maxRetries - (rc + 1)" using Suc.hyps(2) by simp
    have le: "rc + 1 \<le> maxRetries" using lt by simp
    obtain n where n: "rc + 1 + n \<le> maxRetries"
      "delays (summarize_makeApiCall env (rc + 1) (st\<lparr>isSummarizing := False\<rparr>)) =
         map delay [rc + 1 + 1..<rc + 1 + 1 + n]"
      "fetches (summarize_makeApiCall env (rc + 1) (st\<lparr>isSummarizing := False\<rparr>)) = Suc n"
      using Suc.hyps(1) [OF m le, of "st\<lparr>isSummarizing := False\<rparr>"] by blast
    have run: "summarize_makeApiCall env rc st =
        (Reply_pending, st) # (Timer_pending (delay (rc + 1)), st\<lparr>isSummarizing := False\<rparr>) #
        summarize_makeApiCall env (rc + 1) (st\<lparr>isSummarizing := False\<rparr>)"
      by (simp add: summarize_makeApiCall_retry [of env rc st e "rc + 1"] Inl lt)
    have f: "fetches (summarize_makeApiCall env rc st) = Suc (Suc n)"
      unfolding run using n(3) by (simp add: fetches_def)
    have upt: "[rc + 1..<rc + 1 + Suc n] = (rc + 1) # [rc + 1 + 1..<rc + 1 + 1 + n]"
      by (simp add: upt_conv_Cons)
    have d: "delays (summarize_makeApiCall env rc st) = map delay [rc + 1..<rc + 1 + Suc n]"
      unfolding run upt by (simp only: delays.simps list.map n(2))
    show ?thesis
      using n(1) f d by (intro exI [of _ "Suc n"]) simp
  next
    case (Inr st')
    have run: "summarize_makeApiCall env rc st =
        [(Reply_pending, st), (Settled, st'\<lparr>isSummarizing := False\<rparr>)]"
      by (simp add: summarize_makeApiCall_success [of env rc st st'] Inr)
    show ?thesis
      unfolding run using Suc.prems by (intro exI [of _ 0]) (simp add: fetches_def)
  qed
qed

subsection \<open>fact\<close>

lemma fact_try_client_failure:
  "client_failure r \<Longrightarrow> \<exists>e. fact_try r st = Inl e"
  by (auto simp: client_failure_def fact_try_def split: reply.splits)

lemma fact_try_Inl_any_state:
  "fact_try r st = Inl e \<Longrightarrow> fact_try r st' = Inl e"
  by (auto simp: fact_try_def split: reply.splits option.splits sum.splits if_splits)

lemma fact_try_outside:
  "fact_try r st = Inr st' \<Longrightarrow> outside_fact s0 st \<Longrightarrow> outside_fact s0 st'"
  by (auto simp: fact_try_def outside_fact_def
      split: reply.splits option.splits sum.splits if_splits)

lemma fact_makeApiCall_retry:
  assumes "fact_try (env rc) st = Inl e" and "rc < maxRetries" and "rc' = rc + 1"
  shows "fact_makeApiCall env rc st =
           (Reply_pending, st) # (Timer_pending (delay rc'), st\<lparr>isGettingFact := False\<rparr>) #
           fact_makeApiCall env rc' (st\<lparr>isGettingFact := False\<rparr>)"
  using assms by (subst fact_makeApiCall.simps) (simp add: fact_settle_def)

lemma fact_makeApiCall_give_up:
  assumes "fact_try (env rc) st = Inl e" and "\<not> rc < maxRetries"
  shows "fact_makeApiCall env rc st =
           [(Reply_pending, st),
            (Settled, st\<lparr>error := JStr ''Failed to get a fact. Please try again.'', isGettingFact := False\<rparr>)]"
  using assms by (subst fact_makeApiCall.simps) (simp add: fact_settle_def)

lemma fact_makeApiCall_success:
  assumes "fact_try (env rc) st = Inr st'"
  shows "fact_makeApiCall env rc st = [(Reply_pending, st), (Settled, st'\<lparr>isGettingFact := False\<rparr>)]"
  using assms by (subst fact_makeApiCall.simps) (simp add: fact_settle_def)

text \<open>The run in which each of the four attempts throws.\<close>

lemma fact_all_fail:
  assumes f: "\<And>k. k \<le> 3 \<Longrightarrow> \<exists>e. fact_try (env k) st = Inl e"
  shows "fact_makeApiCall env 0 st =
     [(Reply_pending, st),
      (Timer_pending 2000, st\<lparr>isGettingFact := False\<rparr>),
      (Reply_pending, st\<lparr>isGettingFact := False\<rparr>),
      (Timer_pending 4000, st\<lparr>isGettingFact := False\<rparr>),
      (Reply_pending, st\<lparr>isGettingFact := False\<rparr>),
      (Timer_pending 8000, st\<lparr>isGettingFact := False\<rparr>),
      (Reply_pending, st\<lparr>isGettingFact := False\<rparr>),
      (Settled, st\<lparr>error := JStr ''Failed to get a fact. Please try again.'', isGettingFact := False\<rparr>)]"
proof -
  let ?s = "st\<lparr>isGettingFact := False\<rparr>"
  have g: "\<exists>e. fact_try (env k) ?s = Inl e" if "k \<le> 3" for k
    using f [OF that] fact_try_Inl_any_state by blast
  obtain e0 where e0: "fact_try (env 0) st = Inl e0" using f [of 0] by auto
  obtain e1 where e1: "fact_try (env 1) ?s = Inl e1" using g [of 1] by auto
  obtain e2 where e2: "fact_try (env 2) ?s = Inl e2" using g [of 2] by auto
  obtain e3 where e3: "fact_try (env 3) ?s = Inl e3" using g [of 3] by auto
  have s0: "fact_makeApiCall env 0 st =
      (Reply_pending, st) # (Timer_pending 2000, ?s) # fact_makeApiCall env 1 ?s"
    by (subst fact_makeApiCall_retry [of env 0 st e0 1])
       (simp_all add: e0 maxRetries_def delay_def baseDelay_def)
  have s1: "fact_makeApiCall env 1 ?s =
      (Reply_pending, ?s) # (Timer_pending 4000, ?s) # fact_makeApiCall env 2 ?s"
    by (subst fact_makeApiCall_retry [of env 1 ?s e1 2])
       (simp_all add: e1 [unfolded One_nat_def] maxRetries_def delay_def baseDelay_def)
  have s2: "fact_makeApiCall env 2 ?s =
      (Reply_pending, ?s) # (Timer_pending 8000, ?s) # fact_makeApiCall env 3 ?s"
    by (subst fact_makeApiCall_retry [of env 2 ?s e2 3])
       (simp_all add: e2 maxRetries_def delay_def baseDelay_def)
  have s3: "fact_makeApiCall env 3 ?s =
      [(Reply_pending, ?s), (Settled, ?s\<lparr>error := JStr ''Failed to get a fact. Please try again.'', isGettingFact := False\<rparr>)]"
    by (subst fact_makeApiCall_give_up [of env 3 ?s e3]) (simp_all add: e3 maxRetries_def)
  show ?thesis
    unfolding s0 s1 s2 s3 by simp
qed

text \<open>No point of a run touches a hook of the other two coordinators.\<close>

lemma fact_makeApiCall_outside:
  "outside_fact s0 st \<Longrightarrow>
   \<forall>p\<in>set (fact_makeApiCall env rc st). outside_fact s0 (snd p)"
proof (induction n \<equiv> "maxRetries - rc" arbitrary: rc st)
  case 0
  show ?case
  proof (cases "fact_try (env rc) st")
    case (Inl e)
    with 0 show ?thesis
      by (simp add: fact_makeApiCall_give_up [of env rc st e] outside_fact_def)
  next
    case (Inr st')
    with 0 fact_try_outside [OF Inr] show ?thesis
      by (simp add: fact_makeApiCall_success [of env rc st st'] outside_fact_def)
  qed
next
  case (Suc m)
  show ?case
  proof (cases "fact_try (env rc) st")
    case (Inl e)
    have lt: "rc < maxRetries" using Suc.hyps(2) by simp
    have o: "outside_fact s0 (st\<lparr>isGettingFact := False\<rparr>)"
      using Suc.prems by (simp add: outside_fact_def)
    have m: "m = maxRetries - (rc + 1)" using Suc.hyps(2) by simp
    show ?thesis
      using Suc.hyps(1) [OF m o] Suc.prems o
      by (simp add: fact_makeApiCall_retry [of env rc st e "rc + 1"] Inl lt)
  next
    case (Inr st')
    with Suc.prems fact_try_outside [OF Inr] show ?thesis
      by (simp add: fact_makeApiCall_success [of env rc st st'] outside_fact_def)
  qed
qed

text \<open>
  The timers of a run, in order, are \<open>delay (rc + 1)\<close>, \<open>delay (rc + 2)\<close>, ..., each
  followed by one more request.
\<close>

lemma fact_makeApiCall_delays:
  "rc \<le> maxRetries \<Longrightarrow>
   \<exists>n. rc + n \<le> maxRetries \<and>
       delays (fact_makeApiCall env rc st) = map delay [rc + 1..<rc + 1 + n] \<and>
       fetches (fact_makeApiCall env rc st) = Suc n"
proof (induction m \<equiv> "maxRetries - rc" arbitrary: rc st)
  case 0
  then have ge: "\<not> rc < maxRetries" by simp
  show ?case
  proof (cases "fact_try (env rc) st")
    case (Inl e)
    have run: "fact_makeApiCall env rc st =
        [(Reply_pending, st), (Settled, st\<lparr>error := JStr ''Failed to get a fact. Please try again.'', isGettingFact := False\<rparr>)]"
      by (simp add: fact_makeApiCall_give_up [of env rc st e] Inl ge)
    show ?thesis
      unfolding run using "0.prems" by (intro exI [of _ 0]) (simp add: fetches_def)
  next
    case (Inr st')
    have run: "fact_makeApiCall env rc st =
        [(Reply_pending, st), (Settled, st'\<lparr>isGettingFact := False\<rparr>)]"
      by (simp add: fact_makeApiCall_success [of env rc st st'] Inr)
    show ?thesis
      unfolding run using "0.prems" by (intro exI [of _ 0]) (simp add: fetches_def)
  qed
next
  case (Suc m)
  have lt: "rc < maxRetries" using Suc.hyps(2) by simp
  show ?case
  proof (cases "fact_try (env rc) st")
    case (Inl e)
    have m: "m = maxRetries - (rc + 1)" using Suc.hyps(2) by simp
    have le: "rc + 1 \<le> maxRetries" using lt by simp
    obtain n where n: "rc + 1 + n \<le> maxRetries"
      "delays (fact_makeApiCall env (rc + 1) (st\<lparr>isGettingFact := False\<rparr>)) =
         map delay [rc + 1 + 1..<rc + 1 + 1 + n]"
      "fetches (fact_makeApiCall env (rc + 1) (st\<lparr>isGettingFact := False\<rparr>)) = Suc n"
      using Suc.hyps(1) [OF m le, of "st\<lparr>isGettingFact := False\<rparr>"] by blast
    have run: "fact_makeApiCall env rc st =
        (Reply_pending, st) # (Timer_pending (delay (rc + 1)), st\<lparr>isGettingFact := False\<rparr>) #
        fact_makeApiCall env (rc + 1) (st\<lparr>isGettingFact := False\<rparr>)"
      by (simp add: fact_makeApiCall_retry [of env rc st e "rc + 1"] Inl lt)
    have f: "fetches (fact_makeApiCall env rc st) = Suc (Suc n)"
      unfolding run using n(3) by (simp add: fetches_def)
    have upt: "[rc + 1..<rc + 1 + Suc n] = (rc + 1) # [rc + 1 + 1..<rc + 1 + 1 + n]"
      by (simp add: upt_conv_Cons)
    have d: "delays (fact_makeApiCall env rc st) = map delay [rc + 1..<rc + 1 + Suc n]"
      unfolding run upt by (simp only: delays.simps list.map n(2))
    show ?thesis
      using n(1) f d by (intro exI [of _ "Suc n"]) simp
  next
    case (Inr st')
    have run: "fact_makeApiCall env rc st =
        [(Reply_pending, st), (Settled, st'\<lparr>isGettingFact := False\<rparr>)]"
      by (simp add: fact_makeApiCall_success [of env rc st st'] Inr)
    show ?thesis
      unfolding run using Suc.prems by (intro exI [of _ 0]) (simp add: fetches_def)
  qed
qed

section \<open>The order of requests and timers\<close>

lemma analyze_try_isl_any_state:
  "isl (analyze_try parse r st) = isl (analyze_try parse r st')"
  by (auto simp: analyze_try_def split: reply.splits option.splits sum.splits if_splits)

lemma analyze_makeApiCall_waits:
  "map fst (analyze_makeApiCall parse env rc st) =
     waits_from rc (leading_failures (\<lambda>k. isl (analyze_try parse (env k) st)) rc)"
proof (induction m \<equiv> "maxRetries - rc" arbitrary: rc st)
  case 0
  then have ge: "\<not> rc < maxRetries" by simp
  then have n: "leading_failures (\<lambda>k. isl (analyze_try parse (env k) st)) rc = 0"
    by (simp add: leading_failures_def)
  show ?case
  proof (cases "analyze_try parse (env rc) st")
    case (Inl e)
    show ?thesis
      unfolding n by (simp add: analyze_makeApiCall_give_up [of parse env rc st e] Inl ge)
  next
    case (Inr st')
    show ?thesis
      unfolding n by (simp add: analyze_makeApiCall_success [of parse env rc st st'] Inr)
  qed
next
  case (Suc m)
  have lt: "rc < maxRetries" using Suc.hyps(2) by simp
  have upt: "[rc..<maxRetries] = rc # [rc + 1..<maxRetries]"
    using lt by (simp add: upt_conv_Cons)
  show ?case
  proof (cases "analyze_try parse (env rc) st")
    case (Inl e)
    let ?s = "st\<lparr>loading := False\<rparr>"
    have m: "m = maxRetries - (rc + 1)" using Suc.hyps(2) by simp
    have same: "(\<lambda>k. isl (analyze_try parse (env k) ?s)) = (\<lambda>k. isl (analyze_try parse (env k) st))"
      using analyze_try_isl_any_state [of parse _ ?s st] by auto
    have n: "leading_failures (\<lambda>k. isl (analyze_try parse (env k) st)) rc =
        Suc (leading_failures (\<lambda>k. isl (analyze_try parse (env k) st)) (rc + 1))"
      unfolding leading_failures_def upt by (simp add: Inl)
    have run: "analyze_makeApiCall parse env rc st =
        (Reply_pending, st) # (Timer_pending (delay (rc + 1)), ?s) #
        analyze_makeApiCall parse env (rc + 1) ?s"
      by (simp add: analyze_makeApiCall_retry [of parse env rc st e "rc + 1"] Inl lt)
    show ?thesis
      unfolding run n using Suc.hyps(1) [OF m, of ?s] by (simp add: same)
  next
    case (Inr st')
    have n: "leading_failures (\<lambda>k. isl (analyze_try parse (env k) st)) rc = 0"
      unfolding leading_failures_def upt by (simp add: Inr)
    show ?thesis
      unfolding n by (simp add: analyze_makeApiCall_success [of parse env rc st st'] Inr)
  qed
qed

lemma summarize_try_isl_any_state:
  "isl (summarize_try r st) = isl (summarize_try r st')"
  by (auto simp: summarize_try_def split: reply.splits option.splits sum.splits if_splits)

lemma summarize_makeApiCall_waits:
  "map fst (summarize_makeApiCall env rc st) =
     waits_from rc (leading_failures (\<lambda>k. isl (summarize_try (env k) st)) rc)"
proof (induction m \<equiv> "maxRetries - rc" arbitrary: rc st)
  case 0
  then have ge: "\<not> rc < maxRetries" by simp
  then have n: "leading_failures (\<lambda>k. isl (summarize_try (env k) st)) rc = 0"
    by (simp add: leading_failures_def)
  show ?case
  proof (cases "summarize_try (env rc) st")
    case (Inl e)
    show ?thesis
      unfolding n by (simp add: summarize_makeApiCall_give_up [of env rc st e] Inl ge)
  next
    case (Inr st')
    show ?thesis
      unfolding n by (simp add: summarize_makeApiCall_success [of env rc st st'] Inr)
  qed
next
  case (Suc m)
  have lt: "rc < maxRetries" using Suc.hyps(2) by simp
  have upt: "[rc..<maxRetries] = rc # [rc + 1..<maxRetries]"
    using lt by (simp add: upt_conv_Cons)
  show ?case
  proof (cases "summarize_try (env rc) st")
    case (Inl e)
    let ?s = "st\<lparr>isSummarizing := False\<rparr>"
    have m: "m = maxRetries - (rc + 1)" using Suc.hyps(2) by simp
    have same: "(\<lambda>k. isl (summarize_try (env k) ?s)) = (\<lambda>k. isl (summarize_try (env k) st))"
      using summarize_try_isl_any_state [of _ ?s st] by auto
    have n: "leading_failures (\<lambda>k. isl (summarize_try (env k) st)) rc =
        Suc (leading_failures (\<lambda>k. isl (summarize_try (env k) st)) (rc + 1))"
      unfolding leading_failures_def upt by (simp add: Inl)
    have run: "summarize_makeApiCall env rc st =
        (Reply_pending, st) # (Timer_pending (delay (rc + 1)), ?s) #
        summarize_makeApiCall env (rc + 1) ?s"
      by (simp add: summarize_makeApiCall_retry [of env rc st e "rc + 1"] Inl lt)
    show ?thesis
      unfolding run n using Suc.hyps(1) [OF m, of ?s] by (simp add: same)
  next
    case (Inr st')
    have n: "leading_failures (\<lambda>k. isl (summarize_try (env k) st)) rc = 0"
      unfolding leading_failures_def upt by (simp add: Inr)
    show ?thesis
      unfolding n by (simp add: summarize_makeApiCall_success [of env rc st st'] Inr)
  qed
qed

lemma fact_try_isl_any_state:
  "isl (fact_try r st) = isl (fact_try r st')"
  by (auto simp: fact_try_def split: reply.splits option.splits sum.splits if_splits)

lemma fact_makeApiCall_waits:
  "map fst (fact_makeApiCall env rc st) =
     waits_from rc (leading_failures (\<lambda>k. isl (fact_try (env k) st)) rc)"
proof (induction m \<equiv> "maxRetries - rc" arbitrary: rc st)
  case 0
  then have ge: "\<not> rc < maxRetries" by simp
  then have n: "leading_failures (\<lambda>k. isl (fact_try (env k) st)) rc = 0"
    by (simp add: leading_failures_def)
  show ?case
  proof (cases "fact_try (env rc) st")
    case (Inl e)
    show ?thesis
      unfolding n by (simp add: fact_makeApiCall_give_up [of env rc st e] Inl ge)
  next
    case (Inr st')
    show ?thesis
      unfolding n by (simp add: fact_makeApiCall_success [of env rc st st'] Inr)
  qed
next
  case (Suc m)
  have lt: "rc < maxRetries" using Suc.hyps(2) by simp
  have upt: "[rc..<maxRetries] = rc # [rc + 1..<maxRetries]"
    using lt by (simp add: upt_conv_Cons)
  show ?case
  proof (cases "fact_try (env rc) st")
    case (Inl e)
    let ?s = "st\<lparr>isGettingFact := False\<rparr>"
    have m: "m = maxRetries - (rc + 1)" using Suc.hyps(2) by simp
    have same: "(\<lambda>k. isl (fact_try (env k) ?s)) = (\<lambda>k. isl (fact_try (env k) st))"
      using fact_try_isl_any_state [of _ ?s st] by auto
    have n: "leading_failures (\<lambda>k. isl (fact_try (env k) st)) rc =
        Suc (leading_failures (\<lambda>k. isl (fact_try (env k) st)) (rc + 1))"
      unfolding leading_failures_def upt by (simp add: Inl)
    have run: "fact_makeApiCall env rc st =
        (Reply_pending, st) # (Timer_pending (delay (rc + 1)), ?s) #
        fact_makeApiCall env (rc + 1) ?s"
      by (simp add: fact_makeApiCall_retry [of env rc st e "rc + 1"] Inl lt)
    show ?thesis
      unfolding run n using Suc.hyps(1) [OF m, of ?s] by (simp add: same)
  next
    case (Inr st')
    have n: "leading_failures (\<lambda>k. isl (fact_try (env k) st)) rc = 0"
      unfolding leading_failures_def upt by (simp add: Inr)
    show ?thesis
      unfolding n by (simp add: fact_makeApiCall_success [of env rc st st'] Inr)
  qed
qed

section \<open>Evaluating a run on given replies\<close>

lemmas eval_run =
  analyzeContent_def summarizeContent_def getMisinformationFact_def
  analyze_makeApiCall.simps summarize_makeApiCall.simps fact_makeApiCall.simps
  analyze_settle_def summarize_settle_def fact_settle_def
  analyze_try_def summarize_try_def fact_try_def
  text_path_def optional_def wire_body_def response_ok_def
  trim_def is_js_whitespace_def maxRetries_def delay_def baseDelay_def
  initial_state_def fetches_def final_def

lemma JSON_parse_not_json: "JSON_parse (JStr ''not json'') = None"
  by code_simp

lemma JSON_parse_seven: "JSON_parse (JStr ''7'') = Some (JNum 7)"
  by code_simp

lemma JSON_parse_high:
  "JSON_parse (JStr ''{\"credibilityScore\": \"high\"}'') =
     Some (JObj [(''credibilityScore'', JStr ''high'')])"
  by code_simp

lemma interpretation_fails_try:
  assumes "response_ok status" and "interpretation_fails parse result"
  shows "\<exists>e. analyze_try parse (Response status (Some result)) st = Inl e"
  using assms
  by (auto simp: analyze_try_def interpretation_fails_def split: sum.splits option.splits)

lemma uninterpretable_try:
  "uninterpretable parse r \<Longrightarrow> \<exists>e. analyze_try parse r st = Inl e"
  using interpretation_fails_try [of _ parse]
  by (auto simp: uninterpretable_def split: reply.splits option.splits)

lemma delays_shape:
  assumes "n \<le> maxRetries" and "delays t = map delay [0 + 1..<0 + 1 + n]" and "fetches t = Suc n"
  shows "delays t = map delay [1..<Suc (length (delays t))] \<and> length (delays t) \<le> 3 \<and>
         fetches t = Suc (length (delays t))"
  using assms by (simp add: maxRetries_def del: upt_Suc)

section \<open>The claims\<close>

subsection \<open>Which failures are retried\<close>

text \<open>
  C1, as the specification states it, fails: an analysis whose first reply has status
  200 and a body without the text does not end there. It waits 2000 ms, sends the
  request again and, the second reply being well formed, ends with a result.
\<close>

theorem analyze_malformed_first_reply_retried:
  "analyzeContent JSON_parse
     (\<lambda>k. if k = 0 then Response 200 (Some (JObj []))
          else Response 200 (Some (wire_body (JStr ''{\"credibilityScore\": 15, \"breakdown\": \"...\"}''))))
     (initial_state\<lparr>inputText := ''abc''\<rparr>) =
   [(Reply_pending, initial_state\<lparr>inputText := ''abc'', loading := True\<rparr>),
    (Timer_pending 2000, initial_state\<lparr>inputText := ''abc''\<rparr>),
    (Reply_pending, initial_state\<lparr>inputText := ''abc''\<rparr>),
    (Settled, initial_state\<lparr>inputText := ''abc'',
       results := JObj [(''credibilityScore'', JNum 15), (''breakdown'', JStr ''...'')]\<rparr>)]"
  by code_simp

text \<open>
  C1, amended. For an analysis invoked with text that is not blank: when the first
  reply is received with a 2xx status but cannot be interpreted (the text is not
  reached, is absent or empty, or \<^verbatim>\<open>JSON.parse\<close> throws on it), the operation does
  not return the failure. The single \<^verbatim>\<open>catch\<close> treats it as it treats a rejected fetch
  or a bad status: it sets a timer of 2000 ms and the request is sent again, so at least
  two requests are sent. When every reply is of that kind, the failure is reported only
  after four requests and the delays 2000, 4000 and 8000 ms.
\<close>

theorem analyze_interpretation_failure_retried:
  assumes "trim (inputText st) \<noteq> []"
  shows "(uninterpretable parse (env 0) \<longrightarrow>
            analyzeContent parse env st =
              (Reply_pending, st\<lparr>loading := True, results := JNull, error := JNull\<rparr>) #
              (Timer_pending 2000, st\<lparr>results := JNull, error := JNull, loading := False\<rparr>) #
              analyze_makeApiCall parse env 1
                (st\<lparr>results := JNull, error := JNull, loading := False\<rparr>) \<and>
            2 \<le> fetches (analyzeContent parse env st)) \<and>
         ((\<forall>k. uninterpretable parse (env k)) \<longrightarrow>
            fetches (analyzeContent parse env st) = 4 \<and>
            delays (analyzeContent parse env st) = [2000, 4000, 8000] \<and>
            final (analyzeContent parse env st) =
              st\<lparr>results := JNull,
                 error := JStr ''Failed to get a response. Please try again.'',
                 loading := False\<rparr>)"
proof -
  let ?s0 = "st\<lparr>loading := True, results := JNull, error := JNull\<rparr>"
  let ?s1 = "st\<lparr>results := JNull, error := JNull, loading := False\<rparr>"
  have first: "analyzeContent parse env st =
      (Reply_pending, ?s0) # (Timer_pending 2000, ?s1) # analyze_makeApiCall parse env 1 ?s1 \<and>
      2 \<le> fetches (analyzeContent parse env st)"
    if u: "uninterpretable parse (env 0)"
  proof -
    obtain e where e: "analyze_try parse (env 0) ?s0 = Inl e"
      using uninterpretable_try [OF u] by blast
    have run: "analyze_makeApiCall parse env 0 ?s0 =
        (Reply_pending, ?s0) # (Timer_pending 2000, ?s1) # analyze_makeApiCall parse env 1 ?s1"
      by (subst analyze_makeApiCall_retry [of parse env 0 ?s0 e 1])
         (simp_all add: e maxRetries_def delay_def baseDelay_def)
    obtain n where "fetches (analyze_makeApiCall parse env 1 ?s1) = Suc n"
      using analyze_makeApiCall_delays [of 1 parse env ?s1] by (auto simp: maxRetries_def)
    then have "2 \<le> fetches (analyze_makeApiCall parse env 0 ?s0)"
      unfolding run by (simp add: fetches_def)
    then show ?thesis
      using assms run by (simp add: analyzeContent_def)
  qed
  have every: "fetches (analyzeContent parse env st) = 4 \<and>
      delays (analyzeContent parse env st) = [2000, 4000, 8000] \<and>
      final (analyzeContent parse env st) =
        st\<lparr>results := JNull,
           error := JStr ''Failed to get a response. Please try again.'',
           loading := False\<rparr>"
    if u: "\<forall>k. uninterpretable parse (env k)"
  proof -
    have a: "\<exists>e. analyze_try parse (env k) s = Inl e" for k s
      using u uninterpretable_try by blast
    show ?thesis
      using assms by (simp add: analyzeContent_def analyze_all_fail [OF a] fetches_def final_def)
  qed
  show ?thesis
    using first every by blast
qed

theorem analyze_interpretation_failure_retried_witness:
  "analyzeContent JSON_parse (\<lambda>k. Response 200 (Some (wire_body (JStr ''not json''))))
     (initial_state\<lparr>inputText := ''abc''\<rparr>) ! 1 =
     (Timer_pending 2000, initial_state\<lparr>inputText := ''abc''\<rparr>) \<and>
   fetches (analyzeContent JSON_parse (\<lambda>k. Response 200 (Some (wire_body (JStr ''not json''))))
     (initial_state\<lparr>inputText := ''abc''\<rparr>)) = 4"
  using analyze_interpretation_failure_retried
          [where st = "initial_state\<lparr>inputText := ''abc''\<rparr>" and parse = JSON_parse
             and env = "\<lambda>k. Response 200 (Some (wire_body (JStr ''not json'')))"]
  by (simp add: eval_run JSON_parse_not_json interpretation_fails_def uninterpretable_def)

subsection \<open>Retry bound\<close>

text \<open>
  C2. When every attempt of an invocation fails at the client layer (each fetch rejects
  or comes back with a status that is not 2xx), the operation sends exactly four
  requests, the first and three retries, and then settles with its own error message
  in the error hook and null in its result hook. The analysis and the summary are
  invoked with text that is not blank; the fact needs none.
\<close>

theorem permanent_client_failure_four_attempts:
  assumes "\<forall>k. client_failure (env k)"
  shows "(trim (inputText st) \<noteq> [] \<longrightarrow>
            fetches (analyzeContent parse env st) = 4 \<and>
            fst (last (analyzeContent parse env st)) = Settled \<and>
            final (analyzeContent parse env st) =
              st\<lparr>loading := False, results := JNull,
                 error := JStr ''Failed to get a response. Please try again.''\<rparr>) \<and>
         (trim (inputText st) \<noteq> [] \<longrightarrow>
            fetches (summarizeContent env st) = 4 \<and>
            fst (last (summarizeContent env st)) = Settled \<and>
            final (summarizeContent env st) =
              st\<lparr>isSummarizing := False, summary := JNull,
                 error := JStr ''Failed to get a summary. Please try again.''\<rparr>) \<and>
         fetches (getMisinformationFact env st) = 4 \<and>
         fst (last (getMisinformationFact env st)) = Settled \<and>
         final (getMisinformationFact env st) =
           st\<lparr>isGettingFact := False, misinformationFact := JNull,
              error := JStr ''Failed to get a fact. Please try again.''\<rparr>"
proof -
  have a: "\<exists>e. analyze_try parse (env k) s = Inl e" for k s
    using assms analyze_try_client_failure by blast
  have b: "\<exists>e. summarize_try (env k) s = Inl e" for k s
    using assms summarize_try_client_failure by blast
  have c: "\<exists>e. fact_try (env k) s = Inl e" for k s
    using assms fact_try_client_failure by blast
  show ?thesis
    by (simp add: analyzeContent_def summarizeContent_def getMisinformationFact_def
        analyze_all_fail [OF a] summarize_all_fail [OF b] fact_all_fail [OF c]
        fetches_def final_def)
qed

theorem permanent_client_failure_witness:
  "fetches (analyzeContent JSON_parse (\<lambda>k. Response 500 None) (initial_state\<lparr>inputText := ''abc''\<rparr>)) = 4 \<and>
   error (final (analyzeContent JSON_parse (\<lambda>k. Response 500 None) (initial_state\<lparr>inputText := ''abc''\<rparr>))) =
     JStr ''Failed to get a response. Please try again.'' \<and>
   results (final (analyzeContent JSON_parse (\<lambda>k. Response 500 None) (initial_state\<lparr>inputText := ''abc''\<rparr>))) = JNull \<and>
   fetches (summarizeContent (\<lambda>k. Rejected) (initial_state\<lparr>inputText := ''abc''\<rparr>)) = 4 \<and>
   error (final (summarizeContent (\<lambda>k. Rejected) (initial_state\<lparr>inputText := ''abc''\<rparr>))) =
     JStr ''Failed to get a summary. Please try again.'' \<and>
   final (getMisinformationFact (\<lambda>k. Response 500 None) initial_state) =
     initial_state\<lparr>error := JStr ''Failed to get a fact. Please try again.''\<rparr>"
  using permanent_client_failure_four_attempts
          [where env = "\<lambda>k. Response 500 None" and st = "initial_state\<lparr>inputText := ''abc''\<rparr>"
             and parse = JSON_parse]
        permanent_client_failure_four_attempts
          [where env = "\<lambda>k. Rejected" and st = "initial_state\<lparr>inputText := ''abc''\<rparr>"
             and parse = JSON_parse]
        permanent_client_failure_four_attempts
          [where env = "\<lambda>k. Response 500 None" and st = "initial_state"
             and parse = JSON_parse]
  by (simp add: client_failure_def response_ok_def trim_def is_js_whitespace_def initial_state_def)

subsection \<open>The busy flag during a retry\<close>

text \<open>
  C3 says the busy flag stays true until the whole chain of retries has ended. The
  \<^verbatim>\<open>finally\<close> block of \<^verbatim>\<open>makeApiCall\<close> runs after every attempt, also after one
  whose \<^verbatim>\<open>catch\<close> has just set the timer of a retry: with a first fetch that rejects,
  each of the three coordinators has its busy flag false while the timer of 2000 ms is
  running.
\<close>

theorem busy_flag_cleared_while_retry_pending:
  "analyzeContent JSON_parse (\<lambda>k. Rejected) (initial_state\<lparr>inputText := ''abc''\<rparr>) ! 1 =
     (Timer_pending 2000, initial_state\<lparr>inputText := ''abc'', loading := False\<rparr>) \<and>
   summarizeContent (\<lambda>k. Rejected) (initial_state\<lparr>inputText := ''abc''\<rparr>) ! 1 =
     (Timer_pending 2000, initial_state\<lparr>inputText := ''abc'', isSummarizing := False\<rparr>) \<and>
   getMisinformationFact (\<lambda>k. Rejected) initial_state ! 1 =
     (Timer_pending 2000, initial_state\<lparr>isGettingFact := False\<rparr>)"
  by (simp add: eval_run)

subsection \<open>The hooks a coordinator writes\<close>

text \<open>
  C4, as the specification states it, fails: the page has one \<open>error\<close> hook, which the
  three coordinators share. The message a failed summary left there is cleared by the
  next request for a fact.
\<close>

theorem fact_invocation_clears_shared_error:
  "error (snd (hd (getMisinformationFact (\<lambda>k. Rejected)
      (initial_state\<lparr>error := JStr ''Failed to get a summary. Please try again.''\<rparr>)))) = JNull"
  by (simp add: eval_run)

text \<open>
  C4, amended. Every point of a run of one coordinator, from any state, leaves the
  input text and the busy flags and result hooks of the other two coordinators as they
  were; so does the handling of one reply in whatever state it finds, which is what a
  run does between the steps of other runs in flight. The \<open>error\<close> hook is outside
  this frame: it is the one hook all three write.
\<close>

theorem coordinators_write_own_slots_and_error:
  "(\<forall>p\<in>set (analyzeContent parse env st). outside_analyze st (snd p)) \<and>
   (\<forall>p\<in>set (summarizeContent env st). outside_summarize st (snd p)) \<and>
   (\<forall>p\<in>set (getMisinformationFact env st). outside_fact st (snd p)) \<and>
   outside_analyze st (snd (analyze_settle parse r retryCount st)) \<and>
   outside_summarize st (snd (summarize_settle r retryCount st)) \<and>
   outside_fact st (snd (fact_settle r retryCount st))"
proof -
  have a: "\<forall>p\<in>set (analyzeContent parse env st). outside_analyze st (snd p)"
    using analyze_makeApiCall_outside
            [of st "st\<lparr>loading := True, results := JNull, error := JNull\<rparr>" parse env 0]
    by (simp add: analyzeContent_def outside_analyze_def)
  have b: "\<forall>p\<in>set (summarizeContent env st). outside_summarize st (snd p)"
    using summarize_makeApiCall_outside
            [of st "st\<lparr>isSummarizing := True, summary := JNull\<rparr>" env 0]
    by (simp add: summarizeContent_def outside_summarize_def)
  have c: "\<forall>p\<in>set (getMisinformationFact env st). outside_fact st (snd p)"
    using fact_makeApiCall_outside
            [of st "st\<lparr>isGettingFact := True, misinformationFact := JNull, error := JNull\<rparr>" env 0]
    by (simp add: getMisinformationFact_def outside_fact_def)
  have refl: "outside_analyze st st" "outside_summarize st st" "outside_fact st st"
    by (simp_all add: outside_analyze_def outside_summarize_def outside_fact_def)
  have d: "outside_analyze st (snd (analyze_settle parse r retryCount st))"
  proof (cases "analyze_try parse r st")
    case (Inl e)
    then show ?thesis by (simp add: analyze_settle_def outside_analyze_def)
  next
    case (Inr st')
    then have "outside_analyze st st'" using analyze_try_outside refl(1) by blast
    with Inr show ?thesis by (simp add: analyze_settle_def outside_analyze_def)
  qed
  have e: "outside_summarize st (snd (summarize_settle r retryCount st))"
  proof (cases "summarize_try r st")
    case (Inl e)
    then show ?thesis by (simp add: summarize_settle_def outside_summarize_def)
  next
    case (Inr st')
    then have "outside_summarize st st'" using summarize_try_outside refl(2) by blast
    with Inr show ?thesis by (simp add: summarize_settle_def outside_summarize_def)
  qed
  have f: "outside_fact st (snd (fact_settle r retryCount st))"
  proof (cases "fact_try r st")
    case (Inl e)
    then show ?thesis by (simp add: fact_settle_def outside_fact_def)
  next
    case (Inr st')
    then have "outside_fact st st'" using fact_try_outside refl(3) by blast
    with Inr show ?thesis by (simp add: fact_settle_def outside_fact_def)
  qed
  show ?thesis
    using a b c d e f by simp
qed

theorem coordinators_write_own_slots_witness:
  "outside_analyze
     (initial_state\<lparr>inputText := ''abc'', summary := JStr ''s'', isGettingFact := True\<rparr>)
     (final (analyzeContent JSON_parse (\<lambda>k. Rejected)
        (initial_state\<lparr>inputText := ''abc'', summary := JStr ''s'', isGettingFact := True\<rparr>))) \<and>
   outside_fact
     (initial_state\<lparr>results := JNum 1, isSummarizing := True\<rparr>)
     (final (getMisinformationFact (\<lambda>k. Response 200 (Some (wire_body (JStr ''f''))))
        (initial_state\<lparr>results := JNum 1, isSummarizing := True\<rparr>)))"
  using coordinators_write_own_slots_and_error
          [where st = "initial_state\<lparr>inputText := ''abc'', summary := JStr ''s'', isGettingFact := True\<rparr>"
             and parse = JSON_parse and env = "\<lambda>k. Rejected" and r = Rejected and retryCount = 0]
        coordinators_write_own_slots_and_error
          [where st = "initial_state\<lparr>results := JNum 1, isSummarizing := True\<rparr>"
             and parse = JSON_parse and env = "\<lambda>k. Response 200 (Some (wire_body (JStr ''f'')))"
             and r = Rejected and retryCount = 0]
  by (simp add: eval_run outside_analyze_def outside_fact_def)

subsection \<open>Result and error after an operation\<close>

text \<open>
  C5 says every invocation clears the earlier result and the earlier error, and that a
  completed operation leaves at most one of the two. \<^verbatim>\<open>analyzeContent\<close> and
  \<^verbatim>\<open>getMisinformationFact\<close> call \<^verbatim>\<open>setError(null)\<close>; \<^verbatim>\<open>summarizeContent\<close> does not.
  A summary requested while a message is in the error hook is sent with the message
  still there, and ends with both the summary and the message.
\<close>

theorem summarize_keeps_prior_error:
  "summarizeContent (\<lambda>k. Response 200 (Some (wire_body (JStr ''s''))))
     (initial_state\<lparr>inputText := ''abc'',
        error := JStr ''Please enter some text to summarize.''\<rparr>) =
   [(Reply_pending,
     initial_state\<lparr>inputText := ''abc'',
       error := JStr ''Please enter some text to summarize.'', isSummarizing := True\<rparr>),
    (Settled,
     initial_state\<lparr>inputText := ''abc'',
       error := JStr ''Please enter some text to summarize.'', summary := JStr ''s''\<rparr>)]"
  by (simp add: eval_run)

subsection \<open>The shape of the analysis\<close>

text \<open>
  C6, as the specification states it, fails: a text that parses to an object whose
  \<^verbatim>\<open>credibilityScore\<close> is the string \<^verbatim>\<open>high\<close> is stored as the result, with one request
  and no error.
\<close>

theorem analyze_accepts_wrong_typed_score:
  "analyzeContent JSON_parse
     (\<lambda>k. Response 200 (Some (wire_body
        (JStr ''{\"credibilityScore\": \"high\", \"breakdown\": \"...\"}''))))
     (initial_state\<lparr>inputText := ''abc''\<rparr>) =
   [(Reply_pending, initial_state\<lparr>inputText := ''abc'', loading := True\<rparr>),
    (Settled, initial_state\<lparr>inputText := ''abc'',
       results := JObj [(''credibilityScore'', JStr ''high''), (''breakdown'', JStr ''...'')]\<rparr>)]"
  by code_simp

text \<open>
  C6, amended. For the analysis, when the first reply has a 2xx status and a text that
  is not empty: whatever value \<^verbatim>\<open>JSON.parse\<close> returns for the text is stored as the
  result, with no check of its fields, and the operation ends after that one request
  with no error; when \<^verbatim>\<open>JSON.parse\<close> throws, the attempt has failed like any other and
  is retried after 2000 ms.
\<close>

theorem analyze_stores_whatever_parses:
  assumes "trim (inputText st) \<noteq> []"
    and "env 0 = Response status (Some result)" and "response_ok status"
    and "text_path result = Inr jsonText" and "truthy jsonText"
  shows "analyzeContent parse env st =
           (case parse jsonText of
              Some parsedResult \<Rightarrow>
                [(Reply_pending, st\<lparr>loading := True, results := JNull, error := JNull\<rparr>),
                 (Settled, st\<lparr>results := parsedResult, error := JNull, loading := False\<rparr>)]
            | None \<Rightarrow>
                (Reply_pending, st\<lparr>loading := True, results := JNull, error := JNull\<rparr>) #
                (Timer_pending 2000, st\<lparr>results := JNull, error := JNull, loading := False\<rparr>) #
                analyze_makeApiCall parse env 1
                  (st\<lparr>results := JNull, error := JNull, loading := False\<rparr>))"
proof (cases "parse jsonText")
  case None
  let ?s0 = "st\<lparr>loading := True, results := JNull, error := JNull\<rparr>"
  have e: "analyze_try parse (env 0) ?s0 = Inl ParseSyntaxError"
    using assms None by (simp add: analyze_try_def)
  have "analyze_makeApiCall parse env 0 ?s0 =
      (Reply_pending, ?s0) # (Timer_pending 2000, ?s0\<lparr>loading := False\<rparr>) #
      analyze_makeApiCall parse env 1 (?s0\<lparr>loading := False\<rparr>)"
    by (subst analyze_makeApiCall_retry [of parse env 0 ?s0 ParseSyntaxError 1])
       (simp_all add: e maxRetries_def delay_def baseDelay_def)
  then show ?thesis
    using assms(1) None by (simp add: analyzeContent_def)
next
  case (Some v)
  let ?s0 = "st\<lparr>loading := True, results := JNull, error := JNull\<rparr>"
  have e: "analyze_try parse (env 0) ?s0 = Inr (?s0\<lparr>results := v\<rparr>)"
    using assms Some by (simp add: analyze_try_def)
  have "analyze_makeApiCall parse env 0 ?s0 =
      [(Reply_pending, ?s0), (Settled, ?s0\<lparr>results := v, loading := False\<rparr>)]"
    by (subst analyze_makeApiCall_success [of parse env 0 ?s0 "?s0\<lparr>results := v\<rparr>"])
       (simp_all add: e)
  then show ?thesis
    using assms(1) Some by (simp add: analyzeContent_def)
qed

theorem analyze_stores_whatever_parses_witness:
  "final (analyzeContent JSON_parse
     (\<lambda>k. Response 200 (Some (wire_body (JStr ''{\"credibilityScore\": \"high\"}''))))
     (initial_state\<lparr>inputText := ''abc''\<rparr>)) =
   initial_state\<lparr>inputText := ''abc'', results := JObj [(''credibilityScore'', JStr ''high'')]\<rparr>"
  using analyze_stores_whatever_parses
          [where st = "initial_state\<lparr>inputText := ''abc''\<rparr>" and parse = JSON_parse
             and env = "\<lambda>k. Response 200 (Some (wire_body (JStr ''{\"credibilityScore\": \"high\"}'')))"
             and status = 200
             and result = "wire_body (JStr ''{\"credibilityScore\": \"high\"}'')"
             and jsonText = "JStr ''{\"credibilityScore\": \"high\"}''"]
  by (simp add: eval_run JSON_parse_high)

subsection \<open>A plain-text reply without the text\<close>

text \<open>
  C7 says a 2xx reply without the text makes the summary and the fact fail with an
  error. \<^verbatim>\<open>analyzeContent\<close> throws on a text that is absent; the two plain-text
  coordinators have no such check: on the body \<^verbatim>\<open>{}\<close> each stores \<^verbatim>\<open>undefined\<close> as its
  result and ends after one request with no error.
\<close>

theorem plain_text_absent_field_is_no_failure:
  "summarizeContent (\<lambda>k. Response 200 (Some (JObj []))) (initial_state\<lparr>inputText := ''abc''\<rparr>) =
     [(Reply_pending, initial_state\<lparr>inputText := ''abc'', isSummarizing := True\<rparr>),
      (Settled, initial_state\<lparr>inputText := ''abc'', summary := JUndefined\<rparr>)] \<and>
   getMisinformationFact (\<lambda>k. Response 200 (Some (JObj []))) initial_state =
     [(Reply_pending, initial_state\<lparr>isGettingFact := True\<rparr>),
      (Settled, initial_state\<lparr>misinformationFact := JUndefined\<rparr>)]"
  by (simp add: eval_run)

subsection \<open>Backoff\<close>

text \<open>
  C8. The delay is a function of the retry count alone, \<open>delay k = 1000 * 2 ^ k\<close>, so
  2000, 4000 and 8000 ms for the first, second and third retry. Every run of every
  coordinator that sends a request is, in order: a request; then, for each attempt that
  throws while fewer than three retries have been made, the timer \<open>delay k\<close> of the
  \<open>k\<close>-th retry followed by the request of that retry; then the end. So the wait before
  the \<open>k\<close>-th retry is \<open>delay k\<close>, there are at most three waits, none longer than
  8000 ms, and each is followed by one more request.
\<close>

theorem backoff_delay_schedule:
  "delay attempt = 1000 * 2 ^ attempt \<and>
   delay 1 = 2000 \<and> delay 2 = 4000 \<and> delay 3 = 8000 \<and>
   delays (analyzeContent parse env st) =
     map delay [1..<Suc (length (delays (analyzeContent parse env st)))] \<and>
   length (delays (analyzeContent parse env st)) \<le> 3 \<and>
   fetches (analyzeContent parse env st) =
     (if trim (inputText st) = [] then 0
      else Suc (length (delays (analyzeContent parse env st)))) \<and>
   delays (summarizeContent env st) =
     map delay [1..<Suc (length (delays (summarizeContent env st)))] \<and>
   length (delays (summarizeContent env st)) \<le> 3 \<and>
   fetches (summarizeContent env st) =
     (if trim (inputText st) = [] then 0
      else Suc (length (delays (summarizeContent env st)))) \<and>
   delays (getMisinformationFact env st) =
     map delay [1..<Suc (length (delays (getMisinformationFact env st)))] \<and>
   length (delays (getMisinformationFact env st)) \<le> 3 \<and>
   fetches (getMisinformationFact env st) = Suc (length (delays (getMisinformationFact env st))) \<and>
   map fst (analyzeContent parse env st) =
     (if trim (inputText st) = [] then [Settled]
      else waits_from 0 (leading_failures (\<lambda>k. isl (analyze_try parse (env k) st)) 0)) \<and>
   map fst (summarizeContent env st) =
     (if trim (inputText st) = [] then [Settled]
      else waits_from 0 (leading_failures (\<lambda>k. isl (summarize_try (env k) st)) 0)) \<and>
   map fst (getMisinformationFact env st) =
     waits_from 0 (leading_failures (\<lambda>k. isl (fact_try (env k) st)) 0)"
proof -
  have wa: "map fst (analyzeContent parse env st) =
     (if trim (inputText st) = [] then [Settled]
      else waits_from 0 (leading_failures (\<lambda>k. isl (analyze_try parse (env k) st)) 0))"
    using analyze_try_isl_any_state
            [of parse _ "st\<lparr>loading := True, results := JNull, error := JNull\<rparr>" st]
    by (simp add: analyzeContent_def analyze_makeApiCall_waits)
  have ws: "map fst (summarizeContent env st) =
     (if trim (inputText st) = [] then [Settled]
      else waits_from 0 (leading_failures (\<lambda>k. isl (summarize_try (env k) st)) 0))"
    using summarize_try_isl_any_state [of _ "st\<lparr>isSummarizing := True, summary := JNull\<rparr>" st]
    by (simp add: summarizeContent_def summarize_makeApiCall_waits)
  have wf: "map fst (getMisinformationFact env st) =
     waits_from 0 (leading_failures (\<lambda>k. isl (fact_try (env k) st)) 0)"
    using fact_try_isl_any_state
            [of _ "st\<lparr>isGettingFact := True, misinformationFact := JNull, error := JNull\<rparr>" st]
    by (simp add: getMisinformationFact_def fact_makeApiCall_waits)
  have d: "delay attempt = 1000 * 2 ^ attempt" for attempt
    by (simp add: delay_def baseDelay_def)
  have a: "delays (analyzeContent parse env st) =
             map delay [1..<Suc (length (delays (analyzeContent parse env st)))] \<and>
           length (delays (analyzeContent parse env st)) \<le> 3 \<and>
           fetches (analyzeContent parse env st) =
             (if trim (inputText st) = [] then 0
              else Suc (length (delays (analyzeContent parse env st))))"
  proof (cases "trim (inputText st) = []")
    case True
    then show ?thesis by (simp add: analyzeContent_def fetches_def)
  next
    case False
    let ?t = "analyze_makeApiCall parse env 0 (st\<lparr>loading := True, results := JNull, error := JNull\<rparr>)"
    obtain n where "0 + n \<le> maxRetries" "delays ?t = map delay [0 + 1..<0 + 1 + n]"
      "fetches ?t = Suc n"
      using analyze_makeApiCall_delays [of 0 parse env] by (metis le0)
    then show ?thesis
      using False delays_shape [of n ?t] by (simp add: analyzeContent_def del: upt_Suc)
  qed
  have b: "delays (summarizeContent env st) =
             map delay [1..<Suc (length (delays (summarizeContent env st)))] \<and>
           length (delays (summarizeContent env st)) \<le> 3 \<and>
           fetches (summarizeContent env st) =
             (if trim (inputText st) = [] then 0
              else Suc (length (delays (summarizeContent env st))))"
  proof (cases "trim (inputText st) = []")
    case True
    then show ?thesis by (simp add: summarizeContent_def fetches_def)
  next
    case False
    let ?t = "summarize_makeApiCall env 0 (st\<lparr>isSummarizing := True, summary := JNull\<rparr>)"
    obtain n where "0 + n \<le> maxRetries" "delays ?t = map delay [0 + 1..<0 + 1 + n]"
      "fetches ?t = Suc n"
      using summarize_makeApiCall_delays [of 0 env] by (metis le0)
    then show ?thesis
      using False delays_shape [of n ?t] by (simp add: summarizeContent_def del: upt_Suc)
  qed
  have c: "delays (getMisinformationFact env st) =
             map delay [1..<Suc (length (delays (getMisinformationFact env st)))] \<and>
           length (delays (getMisinformationFact env st)) \<le> 3 \<and>
           fetches (getMisinformationFact env st) =
             Suc (length (delays (getMisinformationFact env st)))"
  proof -
    let ?t = "fact_makeApiCall env 0
         (st\<lparr>isGettingFact := True, misinformationFact := JNull, error := JNull\<rparr>)"
    obtain n where "0 + n \<le> maxRetries" "delays ?t = map delay [0 + 1..<0 + 1 + n]"
      "fetches ?t = Suc n"
      using fact_makeApiCall_delays [of 0 env] by (metis le0)
    then show ?thesis
      using delays_shape [of n ?t] by (simp add: getMisinformationFact_def del: upt_Suc)
  qed
  show ?thesis
    using a b c d wa ws wf by (simp del: upt_Suc)
qed

theorem backoff_delay_schedule_witness:
  "map fst (analyzeContent JSON_parse
      (\<lambda>k. if k < 2 then Response 503 None else Response 200 (Some (wire_body (JStr ''7''))))
      (initial_state\<lparr>inputText := ''abc''\<rparr>)) =
     [Reply_pending, Timer_pending 2000, Reply_pending, Timer_pending 4000,
      Reply_pending, Settled] \<and>
   map fst (summarizeContent (\<lambda>k. Rejected) (initial_state\<lparr>inputText := ''abc''\<rparr>)) =
     [Reply_pending, Timer_pending 2000, Reply_pending, Timer_pending 4000,
      Reply_pending, Timer_pending 8000, Reply_pending, Settled] \<and>
   map fst (summarizeContent (\<lambda>k. Rejected) (initial_state\<lparr>inputText := ''abc''\<rparr>)) =
     waits_from 0 3 \<and>
   delays (getMisinformationFact (\<lambda>k. Rejected) initial_state) = [2000, 4000, 8000] \<and>
   delays (getMisinformationFact (\<lambda>k. Rejected) initial_state) = map delay [1, 2, 3] \<and>
   fetches (getMisinformationFact (\<lambda>k. Rejected) initial_state) = 4"
  using backoff_delay_schedule
          [where env = "\<lambda>k. Rejected" and st = initial_state and parse = JSON_parse
             and attempt = 3]
        backoff_delay_schedule
          [where env = "\<lambda>k. Rejected" and st = "initial_state\<lparr>inputText := ''abc''\<rparr>"
             and parse = JSON_parse and attempt = 1]
        backoff_delay_schedule
          [where env = "\<lambda>k. if k < 2 then Response 503 None
                             else Response 200 (Some (wire_body (JStr ''7'')))"
             and st = "initial_state\<lparr>inputText := ''abc''\<rparr>"
             and parse = JSON_parse and attempt = 2]
  by (simp add: eval_run JSON_parse_seven numeral_3_eq_3)

subsection \<open>Blank input\<close>

text \<open>
  C9. When the input text is empty or consists of whitespace only, the analysis and the
  summary set their fixed validation message and end without sending a request. The
  fact has no precondition: from any state its run starts with a request.
\<close>

theorem blank_input_rejected_without_request:
  "((\<forall>c\<in>set (inputText st). is_js_whitespace c) \<longrightarrow>
      analyzeContent parse env st =
        [(Settled, st\<lparr>error := JStr ''Please enter some text to analyze.''\<rparr>)] \<and>
      fetches (analyzeContent parse env st) = 0 \<and>
      summarizeContent env st =
        [(Settled, st\<lparr>error := JStr ''Please enter some text to summarize.''\<rparr>)] \<and>
      fetches (summarizeContent env st) = 0) \<and>
   hd (getMisinformationFact env st) =
     (Reply_pending, st\<lparr>isGettingFact := True, misinformationFact := JNull, error := JNull\<rparr>) \<and>
   0 < fetches (getMisinformationFact env st)"
proof -
  have "fetches (getMisinformationFact env st) = Suc n \<Longrightarrow> 0 < fetches (getMisinformationFact env st)" for n
    by simp
  moreover have "\<exists>n. fetches (getMisinformationFact env st) = Suc n"
    using fact_makeApiCall_delays [of 0 env] by (fastforce simp: getMisinformationFact_def)
  moreover have "hd (getMisinformationFact env st) =
     (Reply_pending, st\<lparr>isGettingFact := True, misinformationFact := JNull, error := JNull\<rparr>)"
    by (subst getMisinformationFact_def, subst fact_makeApiCall.simps) simp
  ultimately show ?thesis
    by (auto simp: analyzeContent_def summarizeContent_def trim_empty_iff fetches_def)
qed

theorem blank_input_rejected_witness:
  "analyzeContent JSON_parse (\<lambda>k. Response 200 (Some (wire_body (JStr ''{}''))))
     (initial_state\<lparr>inputText := ''   ''\<rparr>) =
     [(Settled, initial_state\<lparr>inputText := ''   '',
                 error := JStr ''Please enter some text to analyze.''\<rparr>)] \<and>
   fetches (summarizeContent (\<lambda>k. Response 200 (Some (wire_body (JStr ''{}''))))
     (initial_state\<lparr>inputText := ''   ''\<rparr>)) = 0"
  using blank_input_rejected_without_request
          [where st = "initial_state\<lparr>inputText := ''   ''\<rparr>" and parse = JSON_parse
             and env = "\<lambda>k. Response 200 (Some (wire_body (JStr ''{}'')))"]
  by (simp add: is_js_whitespace_def fetches_def)

text \<open>
  C10. When the analysis or the summary rejects blank input, the run is that single
  step and writes the error hook only: the busy flag and the result hook keep the values
  they had, so an earlier result stays beside the new message.
\<close>

theorem blank_input_writes_only_error:
  assumes "\<forall>c\<in>set (inputText st). is_js_whitespace c"
  shows "length (analyzeContent parse env st) = 1 \<and>
         final (analyzeContent parse env st) =
           st\<lparr>error := JStr ''Please enter some text to analyze.''\<rparr> \<and>
         loading (final (analyzeContent parse env st)) = loading st \<and>
         results (final (analyzeContent parse env st)) = results st \<and>
         length (summarizeContent env st) = 1 \<and>
         final (summarizeContent env st) =
           st\<lparr>error := JStr ''Please enter some text to summarize.''\<rparr> \<and>
         isSummarizing (final (summarizeContent env st)) = isSummarizing st \<and>
         summary (final (summarizeContent env st)) = summary st"
  using assms by (simp add: analyzeContent_def summarizeContent_def trim_empty_iff final_def)

theorem blank_input_writes_only_error_witness:
  "final (analyzeContent JSON_parse (\<lambda>k. Rejected)
     (initial_state\<lparr>inputText := '' '', results := JObj [(''credibilityScore'', JNum 15)]\<rparr>)) =
   initial_state\<lparr>inputText := '' '', results := JObj [(''credibilityScore'', JNum 15)],
     error := JStr ''Please enter some text to analyze.''\<rparr> \<and>
   loading (final (analyzeContent JSON_parse (\<lambda>k. Rejected)
     (initial_state\<lparr>inputText := '' '', results := JObj [(''credibilityScore'', JNum 15)]\<rparr>))) = False \<and>
   summary (final (summarizeContent (\<lambda>k. Rejected)
     (initial_state\<lparr>inputText := [], summary := JStr ''s''\<rparr>))) = JStr ''s''"
  using blank_input_writes_only_error
          [where st = "initial_state\<lparr>inputText := '' '', results := JObj [(''credibilityScore'', JNum 15)]\<rparr>"
             and parse = JSON_parse and env = "\<lambda>k. Rejected"]
        blank_input_writes_only_error
          [where st = "initial_state\<lparr>inputText := [], summary := JStr ''s''\<rparr>"
             and parse = JSON_parse and env = "\<lambda>k. Rejected"]
  by (simp add: is_js_whitespace_def initial_state_def)

end
